theory Spec2Isabelle
  imports Complex_Main
begin

section \<open>Constants and numbers\<close>

text \<open>
  The module constants of \<^verbatim>\<open>maginifier-mouse-latest.py\<close> (lines 13-22). Python floats are
  modelled as exact rationals: the zoom starts at 2.0 and moves in steps of 0.5, values that
  floats hold exactly; the rounding of the quotient \<^verbatim>\<open>screen_width / self.zoom\<close> is not
  modelled.
\<close>

definition ZOOM_MIN :: rat where
  "ZOOM_MIN = 3 / 2"

definition ZOOM_MAX :: rat where
  "ZOOM_MAX = 10"

definition ZOOM_STEP :: rat where
  "ZOOM_STEP = 1 / 2"

definition MARGIN_BORDER :: rat where
  "MARGIN_BORDER = 50"


text \<open>Python's \<^verbatim>\<open>int(r)\<close> on a finite float: truncation toward zero.\<close>

definition py_int :: "rat \<Rightarrow> int" where
  "py_int r = (if 0 \<le> r then \<lfloor>r\<rfloor> else \<lceil>r\<rceil>)"

datatype error = ZeroDivisionError

section \<open>Data model\<close>

datatype mode = Center | Border

text \<open>
  The texts handed to \<^verbatim>\<open>ui.message\<close>, by the place that issues them: the start message
  carries the mode, the zoom message the new zoom.
\<close>

datatype message =
    MsgStarted mode
  | MsgStopped
  | MsgModeBorder
  | MsgModeCenter
  | MsgEnableBeforeMode
  | MsgZoomLevel rat
  | MsgEnableBeforeZoom

text \<open>
  Calls that leave the plug-in: the renderer call \<^verbatim>\<open>MagSetFullscreenTransform(zoom, left, top)\<close>,
  the pointer warp \<^verbatim>\<open>winUser.setCursorPos\<close> and \<^verbatim>\<open>ui.message\<close>. The renderer reset of
  \<^verbatim>\<open>_resetMagnifier\<close> is the call with arguments \<open>(1.0, 0, 0)\<close>.
\<close>

datatype effect =
    MagSetFullscreenTransform rat int int
  | SetCursorPos "int \<times> int"
  | Message message

text \<open>
  What a handler reads from outside during one run: the two screen metrics and the position
  that \<^verbatim>\<open>_getNVDAPosition\<close> returns.
\<close>

record env =
  screen_width :: int
  screen_height :: int
  nvda_pos :: "int \<times> int"

text \<open>
  The instance fields of \<^verbatim>\<open>GlobalPlugin\<close>, followed by the part of the world the handlers
  act on: the pointer device (\<open>cursor\<close>, read by \<^verbatim>\<open>GetCursorPos\<close> and written by
  \<^verbatim>\<open>setCursorPos\<close>), the \<^verbatim>\<open>wx.CallLater\<close> timers that are armed (\<open>pending\<close>, by
  identity), the identity of the next timer object, and the log of outside calls. The field
  \<open>timer\<close> holds the identity of the timer object \<^verbatim>\<open>self.timer\<close> refers to. The anchor
  \<open>last_screen_left\<close>, \<open>last_screen_top\<close> is rational: border mode adds a float to it.
\<close>

record plugin =
  timer :: "nat option"
  magnifier_is_on :: bool
  zoom :: rat
  last_mouse_pos :: "int \<times> int"
  last_nvda_pos :: "int \<times> int"
  last_screen_left :: rat
  last_screen_top :: rat
  mode :: mode
  cursor :: "int \<times> int"
  pending :: "nat list"
  next_timer :: nat
  effects :: "effect list"

text \<open>\<^verbatim>\<open>__init__\<close>; the pointer device is wherever it is, \<open>c\<close>.\<close>

definition init :: "int \<times> int \<Rightarrow> plugin" where
  "init c =
     \<lparr>timer = None, magnifier_is_on = False, zoom = 2,
      last_mouse_pos = (0, 0), last_nvda_pos = (0, 0),
      last_screen_left = 0, last_screen_top = 0, mode = Center,
      cursor = c, pending = [], next_timer = 0, effects = []\<rparr>"

section \<open>Geometry\<close>

text \<open>
  \<^verbatim>\<open>_getMagnifierWindow\<close> (latest variant, lines 181-201). The division raises
  \<^verbatim>\<open>ZeroDivisionError\<close> when the zoom is zero. The source assigns \<^verbatim>\<open>left\<close> and \<^verbatim>\<open>top\<close>
  twice: \<open>left0\<close>, \<open>top0\<close> are the first values, \<open>left1\<close>, \<open>top1\<close> the clamped ones.
  In Python a quotient of magnitude \<open>FLOAT_OVERFLOW\<close> or more is an infinity, and
  \<^verbatim>\<open>int\<close> of an infinity raises \<^verbatim>\<open>OverflowError\<close>; the rationals have no infinity and the
  definition has no such path. With a screen of at most \<open>2 ^ 31\<close> pixels this needs a zoom
  below \<open>10 ^ - 298\<close>; the statement about zooms below 1 keeps the quotients below
  \<open>FLOAT_OVERFLOW\<close>.
\<close>

definition getMagnifierWindow ::
  "env \<Rightarrow> plugin \<Rightarrow> rat \<Rightarrow> rat \<Rightarrow> error + (int \<times> int \<times> rat \<times> rat)" where
  "getMagnifierWindow e s x y =
     (if zoom s = 0 then Inl ZeroDivisionError
      else
        let visible_width = of_int (screen_width e) / zoom s;
            visible_height = of_int (screen_height e) / zoom s;
            left0 = py_int (x - visible_width / 2);
            top0 = py_int (y - visible_height / 2);
            left1 = max 0 (min left0 (py_int (of_int (screen_width e) - visible_width)));
            top1 = max 0 (min top0 (py_int (of_int (screen_height e) - visible_height)))
        in Inr (left1, top1, visible_width, visible_height))"

text \<open>
  \<^verbatim>\<open>_getMagnifierWindow\<close> of the older variant \<^verbatim>\<open>maginifier-mouse-centered.py\<close>
  (lines 147-161), which returns the corner only; \<open>z\<close> is its local \<^verbatim>\<open>zoom = self.zoom\<close>.
\<close>

definition getMagnifierWindow_centered ::
  "env \<Rightarrow> rat \<Rightarrow> rat \<Rightarrow> rat \<Rightarrow> error + (int \<times> int)" where
  "getMagnifierWindow_centered e z x y =
     (if z = 0 then Inl ZeroDivisionError
      else
        let visibleWidth = of_int (screen_width e) / z;
            visibleHeight = of_int (screen_height e) / z;
            left0 = py_int (x - visibleWidth / 2);
            top0 = py_int (y - visibleHeight / 2);
            left1 = max 0 (min left0 (py_int (of_int (screen_width e) - visibleWidth)));
            top1 = max 0 (min top0 (py_int (of_int (screen_height e) - visibleHeight)))
        in Inr (left1, top1))"

section \<open>Renderer, messages and timers\<close>

definition ui_message :: "message \<Rightarrow> plugin \<Rightarrow> plugin" where
  "ui_message m s = s\<lparr>effects := effects s @ [Message m]\<rparr>"

text \<open>
  \<^verbatim>\<open>_resetMagnifier\<close> (lines 160-179): one renderer call with \<open>(1.0, 0, 0)\<close>; a failure is
  logged and nothing else happens.
\<close>

definition resetMagnifier :: "plugin \<Rightarrow> plugin" where
  "resetMagnifier s = s\<lparr>effects := effects s @ [MagSetFullscreenTransform 1 0 0]\<rparr>"

text \<open>
  \<^verbatim>\<open>self.timer = wx.CallLater(TIMER_INTERVAL_MS, self._chooseFocus)\<close>: a new timer object is
  armed and \<^verbatim>\<open>self.timer\<close> refers to it.
\<close>

definition CallLater :: "plugin \<Rightarrow> plugin" where
  "CallLater s =
     s\<lparr>timer := Some (next_timer s),
       pending := pending s @ [next_timer s],
       next_timer := Suc (next_timer s)\<rparr>"

text \<open>\<^verbatim>\<open>if self.timer: self.timer.Stop()\<close>: the timer object referred to is disarmed.\<close>

definition timer_Stop :: "plugin \<Rightarrow> plugin" where
  "timer_Stop s =
     (case timer s of
        None \<Rightarrow> s
      | Some t \<Rightarrow> s\<lparr>pending := removeAll t (pending s)\<rparr>)"

text \<open>\<^verbatim>\<open>_continueMagnifier\<close> (lines 218-230).\<close>

definition continueMagnifier :: "plugin \<Rightarrow> plugin" where
  "continueMagnifier s =
     (let s1 = timer_Stop s
      in if magnifier_is_on s1 then CallLater s1
         else resetMagnifier (s1\<lparr>timer := None\<rparr>))"

text \<open>
  \<^verbatim>\<open>_centerMagnifier\<close> (lines 203-216): the viewport of \<open>(x, y)\<close>, one renderer call, then
  \<^verbatim>\<open>_continueMagnifier\<close>. The visible sizes are not used.
\<close>

definition centerMagnifier :: "env \<Rightarrow> rat \<Rightarrow> rat \<Rightarrow> plugin \<Rightarrow> error + plugin" where
  "centerMagnifier e x y s =
     (case getMagnifierWindow e s x y of
        Inl err \<Rightarrow> Inl err
      | Inr (left, top', visible_width, visible_height) \<Rightarrow>
          Inr (continueMagnifier
                 (s\<lparr>effects := effects s @ [MagSetFullscreenTransform (zoom s) left top']\<rparr>)))"

section \<open>Commands\<close>

text \<open>\<^verbatim>\<open>script_toggleMagnifier\<close> (lines 44-63).\<close>

definition script_toggleMagnifier :: "plugin \<Rightarrow> plugin" where
  "script_toggleMagnifier s =
     (if \<not> magnifier_is_on s
      then ui_message (MsgStarted (mode s)) (CallLater (s\<lparr>magnifier_is_on := True\<rparr>))
      else ui_message MsgStopped (resetMagnifier (s\<lparr>magnifier_is_on := False\<rparr>)))"

text \<open>\<^verbatim>\<open>script_toggleMouseMode\<close> (lines 88-103).\<close>

definition script_toggleMouseMode :: "plugin \<Rightarrow> plugin" where
  "script_toggleMouseMode s =
     (if magnifier_is_on s
      then (if mode s = Center
            then ui_message MsgModeBorder (s\<lparr>mode := Border\<rparr>)
            else ui_message MsgModeCenter (s\<lparr>mode := Center\<rparr>))
      else ui_message MsgEnableBeforeMode s)"

text \<open>
  \<^verbatim>\<open>_zoom\<close> (lines 105-125), named \<open>zoom_by\<close> here since \<open>zoom\<close> is the field;
  \<^verbatim>\<open>script_zoomIn\<close> and \<^verbatim>\<open>script_zoomOut\<close> call it with \<open>+1\<close> and \<open>-1\<close>.
\<close>

definition zoom_by :: "int \<Rightarrow> env \<Rightarrow> plugin \<Rightarrow> error + plugin" where
  "zoom_by direction e s =
     (if magnifier_is_on s
      then
        let s1 = (if direction > 0
                  then s\<lparr>zoom := min (zoom s + ZOOM_STEP) ZOOM_MAX\<rparr>
                  else s\<lparr>zoom := max (zoom s - ZOOM_STEP) ZOOM_MIN\<rparr>);
            s2 = ui_message (MsgZoomLevel (zoom s1)) s1
        in centerMagnifier e (last_screen_left s2) (last_screen_top s2) s2
      else Inr (ui_message MsgEnableBeforeZoom s))"

definition script_zoomIn :: "env \<Rightarrow> plugin \<Rightarrow> error + plugin" where
  "script_zoomIn e s = zoom_by 1 e s"

definition script_zoomOut :: "env \<Rightarrow> plugin \<Rightarrow> error + plugin" where
  "script_zoomOut e s = zoom_by (- 1) e s"

section \<open>Border mode\<close>

text \<open>
  \<^verbatim>\<open>_isMouseNearBorder\<close> (lines 271-303). The viewport is the one of the current anchor; the
  pointer is read again and stored. Returns the anchor after the shift.
\<close>

definition isMouseNearBorder :: "env \<Rightarrow> plugin \<Rightarrow> error + ((rat \<times> rat) \<times> plugin)" where
  "isMouseNearBorder e s =
     (case getMagnifierWindow e s (last_screen_left s) (last_screen_top s) of
        Inl err \<Rightarrow> Inl err
      | Inr (left, top', visible_width, visible_height) \<Rightarrow>
          let mouse_x = of_int (fst (cursor s));
              mouse_y = of_int (snd (cursor s));
              s1 = s\<lparr>last_mouse_pos := cursor s\<rparr>;
              min_x = of_int left + MARGIN_BORDER;
              max_x = of_int left + visible_width - MARGIN_BORDER;
              min_y = of_int top' + MARGIN_BORDER;
              max_y = of_int top' + visible_height - MARGIN_BORDER;
              dx = (if mouse_x < min_x then mouse_x - min_x
                    else if mouse_x > max_x then mouse_x - max_x
                    else 0);
              dy = (if mouse_y < min_y then mouse_y - min_y
                    else if mouse_y > max_y then mouse_y - max_y
                    else 0);
              s2 = (if dx \<noteq> 0 \<or> dy \<noteq> 0
                    then s1\<lparr>last_screen_left := last_screen_left s1 + dx,
                            last_screen_top := last_screen_top s1 + dy\<rparr>
                    else s1)
          in Inr ((last_screen_left s2, last_screen_top s2), s2))"

section \<open>Focus arbitration\<close>

text \<open>\<^verbatim>\<open>_focusOnNvda\<close> (lines 332-336).\<close>

definition focusOnNvda :: "int \<times> int \<Rightarrow> plugin \<Rightarrow> (rat \<times> rat) \<times> plugin" where
  "focusOnNvda pos s =
     ((of_int (fst pos), of_int (snd pos)),
      s\<lparr>last_nvda_pos := pos,
        last_screen_left := of_int (fst pos),
        last_screen_top := of_int (snd pos),
        cursor := pos,
        effects := effects s @ [SetCursorPos pos]\<rparr>)"

text \<open>\<^verbatim>\<open>_focusOnMouse\<close> (lines 338-343).\<close>

definition focusOnMouse ::
  "env \<Rightarrow> int \<times> int \<Rightarrow> plugin \<Rightarrow> error + ((rat \<times> rat) \<times> plugin)" where
  "focusOnMouse e pos s =
     (let s1 = s\<lparr>last_mouse_pos := pos\<rparr>
      in if mode s1 = Border then isMouseNearBorder e s1
         else Inr ((of_int (fst pos), of_int (snd pos)),
                   s1\<lparr>last_screen_left := of_int (fst pos),
                      last_screen_top := of_int (snd pos)\<rparr>))"

text \<open>
  \<^verbatim>\<open>_chooseFocus\<close> (lines 346-358), the handler of a tick. The accessibility position is the
  reading \<open>nvda_pos e\<close>, the pointer position is what the device holds.
\<close>

definition chooseFocus :: "env \<Rightarrow> plugin \<Rightarrow> error + plugin" where
  "chooseFocus e s =
     (let mouse_pos = cursor s
      in if last_nvda_pos s \<noteq> nvda_pos e
         then (case focusOnNvda (nvda_pos e) s of
                 (focus_pos, s1) \<Rightarrow> centerMagnifier e (fst focus_pos) (snd focus_pos) s1)
         else if last_mouse_pos s \<noteq> mouse_pos
         then (case focusOnMouse e mouse_pos s of
                 Inl err \<Rightarrow> Inl err
               | Inr (focus_pos, s1) \<Rightarrow> centerMagnifier e (fst focus_pos) (snd focus_pos) s1)
         else Inr (continueMagnifier s))"

section \<open>Runs of the plug-in\<close>

text \<open>
  What can happen to the plug-in: the four commands, an armed timer firing (a timer that is
  not armed does not fire), and the user moving the pointer.
\<close>

datatype event =
    ToggleMagnifier
  | ZoomIn env
  | ZoomOut env
  | ToggleMouseMode
  | TimerFires nat env
  | PointerMoved "int \<times> int"

fun step :: "event \<Rightarrow> plugin \<Rightarrow> error + plugin" where
  "step ToggleMagnifier s = Inr (script_toggleMagnifier s)"
| "step (ZoomIn e) s = script_zoomIn e s"
| "step (ZoomOut e) s = script_zoomOut e s"
| "step ToggleMouseMode s = Inr (script_toggleMouseMode s)"
| "step (TimerFires t e) s =
     (if t \<in> set (pending s)
      then chooseFocus e (s\<lparr>pending := removeAll t (pending s)\<rparr>)
      else Inr s)"
| "step (PointerMoved p) s = Inr (s\<lparr>cursor := p\<rparr>)"

fun run :: "event list \<Rightarrow> plugin \<Rightarrow> error + plugin" where
  "run [] s = Inr s"
| "run (ev # evs) s =
     (case step ev s of
        Inl err \<Rightarrow> Inl err
      | Inr s' \<Rightarrow> run evs s')"

text \<open>The renderer calls in a log, and those among them that are not the reset.\<close>

definition renderer_calls :: "effect list \<Rightarrow> effect list" where
  "renderer_calls es =
     filter (\<lambda>ef. case ef of MagSetFullscreenTransform z l t \<Rightarrow> True | _ \<Rightarrow> False) es"

definition reset_calls :: "effect list \<Rightarrow> effect list" where
  "reset_calls es = filter (\<lambda>ef. ef = MagSetFullscreenTransform 1 0 0) es"

definition apply_calls :: "effect list \<Rightarrow> effect list" where
  "apply_calls es = filter (\<lambda>ef. ef \<noteq> MagSetFullscreenTransform 1 0 0) (renderer_calls es)"

text \<open>What a handler appended to the log.\<close>

definition new_effects :: "plugin \<Rightarrow> plugin \<Rightarrow> effect list" where
  "new_effects s s' = drop (length (effects s)) (effects s')"

section \<open>Example inputs\<close>

text \<open>A 1920 by 1080 screen and a 1000 by 800 screen, nothing focused.\<close>

definition hd_env :: env where
  "hd_env = \<lparr>screen_width = 1920, screen_height = 1080, nvda_pos = (0, 0)\<rparr>"

definition small_env :: env where
  "small_env = \<lparr>screen_width = 1000, screen_height = 800, nvda_pos = (0, 0)\<rparr>"


text \<open>
  Border mode at zoom 2 with the anchor at \<open>(250, 200)\<close>: on the 1000 by 800 screen the
  viewport is \<open>(0, 0, 500, 400)\<close>. The pointer is at \<open>c\<close>.
\<close>

definition border_state :: "int \<times> int \<Rightarrow> plugin" where
  "border_state c =
     (init c)\<lparr>magnifier_is_on := True, mode := Border,
              last_screen_left := 250, last_screen_top := 200\<rparr>"

text \<open>
  Border mode at zoom 8 on a 1024 by 768 screen: the viewport is 128 by 96, wider than twice
  the margin and lower than it. Border mode at zoom 10 on an 800 by 600 screen: the viewport
  is 80 by 60, narrower than twice the margin.
\<close>

definition low_env :: env where
  "low_env = \<lparr>screen_width = 1024, screen_height = 768, nvda_pos = (0, 0)\<rparr>"

definition low_state :: "int \<times> int \<Rightarrow> plugin" where
  "low_state c = (init c)\<lparr>magnifier_is_on := True, mode := Border, zoom := 8\<rparr>"

definition narrow_env :: env where
  "narrow_env = \<lparr>screen_width = 800, screen_height = 600, nvda_pos = (0, 0)\<rparr>"

definition narrow_state :: "int \<times> int \<Rightarrow> plugin" where
  "narrow_state c = (init c)\<lparr>magnifier_is_on := True, mode := Border, zoom := 10\<rparr>"

text \<open>A session just started from the initial state, with the pointer at \<open>c\<close>.\<close>

definition active_state :: "int \<times> int \<Rightarrow> plugin" where
  "active_state c = script_toggleMagnifier (init c)"

text \<open>The session started and stopped again, before its first tick.\<close>

definition stopped_state :: "int \<times> int \<Rightarrow> plugin" where
  "stopped_state c = script_toggleMagnifier (active_state c)"

text \<open>Readings with the accessibility position at the screen centre, and at \<open>(5, 5)\<close>.\<close>

definition focus_env :: env where
  "focus_env = \<lparr>screen_width = 1920, screen_height = 1080, nvda_pos = (960, 540)\<rparr>"

definition corner_env :: env where
  "corner_env = \<lparr>screen_width = 1920, screen_height = 1080, nvda_pos = (5, 5)\<rparr>"

text \<open>
  The state after a session was started with the pointer at \<open>(7, 7)\<close> and its first tick
  found the accessibility position at \<open>(5, 5)\<close>: the pointer was warped there, the last
  pointer position is still the initial \<open>(0, 0)\<close>.
\<close>

definition refocus_state :: plugin where
  "refocus_state =
     \<lparr>timer = Some 1, magnifier_is_on = True, zoom = 2,
      last_mouse_pos = (0, 0), last_nvda_pos = (5, 5),
      last_screen_left = 5, last_screen_top = 5, mode = Center,
      cursor = (5, 5), pending = [1], next_timer = 2,
      effects = [Message (MsgStarted Center), SetCursorPos (5, 5),
                 MagSetFullscreenTransform 2 0 0]\<rparr>"

text \<open>A session at the highest zoom.\<close>

definition top_zoom_state :: plugin where
  "top_zoom_state = (active_state (0, 0))\<lparr>zoom := 10\<rparr>"

section \<open>Geometry: lemmas\<close>

lemma py_int_le: "0 \<le> r \<Longrightarrow> of_int (py_int r) \<le> r"
  by (simp add: py_int_def)

lemma py_int_nonneg: "0 \<le> r \<Longrightarrow> 0 \<le> py_int r"
  by (simp add: py_int_def)


lemma visible_le_screen:
  fixes z :: rat
  assumes "ZOOM_MIN \<le> z" and "0 \<le> w"
  shows "of_int w / z \<le> of_int w"
proof -
  have z1: "1 \<le> z" using assms(1) by (simp add: ZOOM_MIN_def)
  have "of_int w / z \<le> of_int w / 1"
    using z1 assms(2) by (intro divide_left_mono) simp_all
  then show ?thesis by simp
qed

lemma clamp_on_screen:
  fixes v :: rat
  assumes "v \<le> of_int w"
  shows "0 \<le> max 0 (min l (py_int (of_int w - v)))"
    and "of_int (max 0 (min l (py_int (of_int w - v)))) \<le> of_int w - v"
proof -
  let ?hi = "py_int (of_int w - v)"
  have d: "0 \<le> of_int w - v" using assms by simp
  have hi0: "0 \<le> ?hi" using d by (rule py_int_nonneg)
  have hi: "of_int ?hi \<le> of_int w - v" using d by (rule py_int_le)
  show "0 \<le> max 0 (min l ?hi)" by simp
  have "max 0 (min l ?hi) \<le> ?hi" using hi0 by simp
  then have "(of_int (max 0 (min l ?hi)) :: rat) \<le> of_int ?hi"
    by (simp only: of_int_le_iff)
  then show "of_int (max 0 (min l ?hi)) \<le> of_int w - v" using hi by linarith
qed

section \<open>Geometry: the claims\<close>

text \<open>
  C2. For every centre, every zoom between \<open>ZOOM_MIN\<close> and \<open>ZOOM_MAX\<close> and every screen of
  width and height at least 1, both variants of the viewport computation return a corner with
  \<open>0 \<le> left \<le> screen_width - visible_width\<close> and \<open>0 \<le> top \<le> screen_height - visible_height\<close>:
  the viewport lies on the screen. The visible sizes returned are the screen sizes divided by
  the zoom.
\<close>

theorem getMagnifierWindow_on_screen:
  assumes "ZOOM_MIN \<le> zoom s" and "zoom s \<le> ZOOM_MAX"
    and "1 \<le> screen_width e" and "1 \<le> screen_height e"
  shows "\<exists>left top vw vh.
           getMagnifierWindow e s x y = Inr (left, top, vw, vh) \<and>
           getMagnifierWindow_centered e (zoom s) x y = Inr (left, top) \<and>
           vw = of_int (screen_width e) / zoom s \<and>
           vh = of_int (screen_height e) / zoom s \<and>
           0 \<le> left \<and> of_int left \<le> of_int (screen_width e) - vw \<and>
           0 \<le> top \<and> of_int top \<le> of_int (screen_height e) - vh"
proof -
  have z0: "zoom s \<noteq> 0" using assms(1) by (auto simp: ZOOM_MIN_def)
  have w: "of_int (screen_width e) / zoom s \<le> of_int (screen_width e)"
    using assms(1,3) by (intro visible_le_screen) simp_all
  have h: "of_int (screen_height e) / zoom s \<le> of_int (screen_height e)"
    using assms(1,4) by (intro visible_le_screen) simp_all
  show ?thesis
    using z0 clamp_on_screen [OF w] clamp_on_screen [OF h]
    by (simp add: getMagnifierWindow_def getMagnifierWindow_centered_def Let_def)
qed

theorem getMagnifierWindow_on_screen_witness:
  "ZOOM_MIN \<le> zoom (init (0, 0)) \<and> zoom (init (0, 0)) \<le> ZOOM_MAX \<and>
   1 \<le> screen_width hd_env \<and> 1 \<le> screen_height hd_env \<and>
   (\<exists>left top' vw vh.
      getMagnifierWindow hd_env (init (0, 0)) 960 540 = Inr (left, top', vw, vh) \<and>
      getMagnifierWindow_centered hd_env (zoom (init (0, 0))) 960 540 = Inr (left, top') \<and>
      vw = of_int (screen_width hd_env) / zoom (init (0, 0)) \<and>
      vh = of_int (screen_height hd_env) / zoom (init (0, 0)) \<and>
      0 \<le> left \<and> of_int left \<le> of_int (screen_width hd_env) - vw \<and>
      0 \<le> top' \<and> of_int top' \<le> of_int (screen_height hd_env) - vh)"
proof -
  have h1: "ZOOM_MIN \<le> zoom (init (0, 0))" by (simp add: ZOOM_MIN_def init_def)
  have h2: "zoom (init (0, 0)) \<le> ZOOM_MAX" by (simp add: ZOOM_MAX_def init_def)
  have h3: "1 \<le> screen_width hd_env" by (simp add: hd_env_def)
  have h4: "1 \<le> screen_height hd_env" by (simp add: hd_env_def)
  show ?thesis
    using h1 h2 h3 h4 getMagnifierWindow_on_screen [OF h1 h2 h3 h4, of 960 540]
    by blast
qed



section \<open>Border mode: lemmas and claims\<close>

text \<open>
  What \<open>isMouseNearBorder\<close> returns once the viewport of the anchor is known: the anchor
  moved by the two shifts, and the pointer stored.
\<close>

lemma isMouseNearBorder_result:
  assumes vp: "getMagnifierWindow e s (last_screen_left s) (last_screen_top s) =
                 Inr (left, top', vw, vh)"
    and dx: "dx = (if of_int (fst (cursor s)) < of_int left + MARGIN_BORDER
                   then of_int (fst (cursor s)) - (of_int left + MARGIN_BORDER)
                   else if of_int (fst (cursor s)) > of_int left + vw - MARGIN_BORDER
                   then of_int (fst (cursor s)) - (of_int left + vw - MARGIN_BORDER)
                   else 0)"
    and dy: "dy = (if of_int (snd (cursor s)) < of_int top' + MARGIN_BORDER
                   then of_int (snd (cursor s)) - (of_int top' + MARGIN_BORDER)
                   else if of_int (snd (cursor s)) > of_int top' + vh - MARGIN_BORDER
                   then of_int (snd (cursor s)) - (of_int top' + vh - MARGIN_BORDER)
                   else 0)"
  shows "isMouseNearBorder e s =
           Inr ((last_screen_left s + dx, last_screen_top s + dy),
                s\<lparr>last_mouse_pos := cursor s,
                  last_screen_left := last_screen_left s + dx,
                  last_screen_top := last_screen_top s + dy\<rparr>)"
proof (cases "dx \<noteq> 0 \<or> dy \<noteq> 0")
  case True
  then show ?thesis
    unfolding isMouseNearBorder_def vp dx dy by (simp add: Let_def)
next
  case False
  then have z: "dx = 0" "dy = 0" by simp_all
  have "isMouseNearBorder e s =
          Inr ((last_screen_left s, last_screen_top s), s\<lparr>last_mouse_pos := cursor s\<rparr>)"
    using z unfolding isMouseNearBorder_def vp dx dy by (simp add: Let_def)
  then show ?thesis using z by simp
qed

text \<open>
  C4. For every anchor whose viewport is wider than twice the margin and every pointer
  position, the border computation shifts the anchor by \<open>dx = 0\<close> when
  \<open>min_x \<le> pointer.x \<le> max_x\<close>, by \<open>dx = pointer.x - min_x\<close> when the pointer is left of
  the inner zone, and by \<open>dx = pointer.x - max_x\<close> when it is right of it, whatever the
  height of the viewport; likewise for \<open>dy\<close> when the viewport is higher than twice the
  margin, whatever its width. In particular, with the margin of 50 and the viewport
  \<open>(0, 0, 500, 400)\<close>, a pointer at \<open>(300, 200)\<close> gives \<open>dx = dy = 0\<close> and leaves the anchor
  as it is, and a pointer at \<open>(10, 200)\<close> gives \<open>dx = - 40\<close>.
\<close>

theorem isMouseNearBorder_dead_zone:
  assumes vp: "getMagnifierWindow e s (last_screen_left s) (last_screen_top s) =
                 Inr (left, top', vw, vh)"
    and bounds: "min_x = of_int left + MARGIN_BORDER" "max_x = of_int left + vw - MARGIN_BORDER"
      "min_y = of_int top' + MARGIN_BORDER" "max_y = of_int top' + vh - MARGIN_BORDER"
    and ptr: "mouse_x = of_int (fst (cursor s))" "mouse_y = of_int (snd (cursor s))"
  shows "(\<exists>dx dy.
            isMouseNearBorder e s =
              Inr ((last_screen_left s + dx, last_screen_top s + dy),
                   s\<lparr>last_mouse_pos := cursor s,
                     last_screen_left := last_screen_left s + dx,
                     last_screen_top := last_screen_top s + dy\<rparr>) \<and>
            (2 * MARGIN_BORDER < vw \<longrightarrow>
               (min_x \<le> mouse_x \<and> mouse_x \<le> max_x \<longrightarrow> dx = 0) \<and>
               (mouse_x < min_x \<longrightarrow> dx = mouse_x - min_x) \<and>
               (max_x < mouse_x \<longrightarrow> dx = mouse_x - max_x)) \<and>
            (2 * MARGIN_BORDER < vh \<longrightarrow>
               (min_y \<le> mouse_y \<and> mouse_y \<le> max_y \<longrightarrow> dy = 0) \<and>
               (mouse_y < min_y \<longrightarrow> dy = mouse_y - min_y) \<and>
               (max_y < mouse_y \<longrightarrow> dy = mouse_y - max_y))) \<and>
         MARGIN_BORDER = 50 \<and>
         getMagnifierWindow small_env (border_state (300, 200)) 250 200 = Inr (0, 0, 500, 400) \<and>
         isMouseNearBorder small_env (border_state (300, 200)) =
           Inr ((250, 200), (border_state (300, 200))\<lparr>last_mouse_pos := (300, 200)\<rparr>) \<and>
         isMouseNearBorder small_env (border_state (10, 200)) =
           Inr ((250 + (- 40), 200),
                (border_state (10, 200))\<lparr>last_mouse_pos := (10, 200),
                                          last_screen_left := 250 + (- 40)\<rparr>)"
proof -
  define dx where "dx = (if mouse_x < min_x then mouse_x - min_x
                         else if mouse_x > max_x then mouse_x - max_x else 0)"
  define dy where "dy = (if mouse_y < min_y then mouse_y - min_y
                         else if mouse_y > max_y then mouse_y - max_y else 0)"
  have r: "isMouseNearBorder e s =
             Inr ((last_screen_left s + dx, last_screen_top s + dy),
                  s\<lparr>last_mouse_pos := cursor s,
                    last_screen_left := last_screen_left s + dx,
                    last_screen_top := last_screen_top s + dy\<rparr>)"
    by (rule isMouseNearBorder_result [OF vp]) (simp_all add: dx_def dy_def bounds ptr)
  have cx: "(min_x \<le> mouse_x \<and> mouse_x \<le> max_x \<longrightarrow> dx = 0) \<and>
            (mouse_x < min_x \<longrightarrow> dx = mouse_x - min_x) \<and>
            (max_x < mouse_x \<longrightarrow> dx = mouse_x - max_x)"
    if "2 * MARGIN_BORDER < vw"
  proof -
    have "min_x < max_x" using that bounds by simp
    then show ?thesis by (auto simp: dx_def)
  qed
  have cy: "(min_y \<le> mouse_y \<and> mouse_y \<le> max_y \<longrightarrow> dy = 0) \<and>
            (mouse_y < min_y \<longrightarrow> dy = mouse_y - min_y) \<and>
            (max_y < mouse_y \<longrightarrow> dy = mouse_y - max_y)"
    if "2 * MARGIN_BORDER < vh"
  proof -
    have "min_y < max_y" using that bounds by simp
    then show ?thesis by (auto simp: dy_def)
  qed
  have g: "getMagnifierWindow small_env (border_state c) 250 200 = Inr (0, 0, 500, 400)" for c
    by (simp add: getMagnifierWindow_def small_env_def border_state_def init_def py_int_def Let_def)
  have e1: "isMouseNearBorder small_env (border_state (300, 200)) =
              Inr ((250, 200), (border_state (300, 200))\<lparr>last_mouse_pos := (300, 200)\<rparr>)"
    by (simp add: isMouseNearBorder_def getMagnifierWindow_def small_env_def border_state_def
        init_def py_int_def MARGIN_BORDER_def Let_def)
  have e2: "isMouseNearBorder small_env (border_state (10, 200)) =
              Inr ((250 + (- 40), 200),
                   (border_state (10, 200))\<lparr>last_mouse_pos := (10, 200),
                                             last_screen_left := 250 + (- 40)\<rparr>)"
    by (simp add: isMouseNearBorder_def getMagnifierWindow_def small_env_def border_state_def
        init_def py_int_def MARGIN_BORDER_def Let_def)
  have m: "MARGIN_BORDER = 50" by (simp add: MARGIN_BORDER_def)
  from r cx cy have
    "\<exists>dx dy.
       isMouseNearBorder e s =
         Inr ((last_screen_left s + dx, last_screen_top s + dy),
              s\<lparr>last_mouse_pos := cursor s,
                last_screen_left := last_screen_left s + dx,
                last_screen_top := last_screen_top s + dy\<rparr>) \<and>
       (2 * MARGIN_BORDER < vw \<longrightarrow>
          (min_x \<le> mouse_x \<and> mouse_x \<le> max_x \<longrightarrow> dx = 0) \<and>
          (mouse_x < min_x \<longrightarrow> dx = mouse_x - min_x) \<and>
          (max_x < mouse_x \<longrightarrow> dx = mouse_x - max_x)) \<and>
       (2 * MARGIN_BORDER < vh \<longrightarrow>
          (min_y \<le> mouse_y \<and> mouse_y \<le> max_y \<longrightarrow> dy = 0) \<and>
          (mouse_y < min_y \<longrightarrow> dy = mouse_y - min_y) \<and>
          (max_y < mouse_y \<longrightarrow> dy = mouse_y - max_y))"
    by blast
  with m g e1 e2 show ?thesis by blast
qed

theorem isMouseNearBorder_dead_zone_witness:
  "getMagnifierWindow small_env (border_state (10, 200))
      (last_screen_left (border_state (10, 200))) (last_screen_top (border_state (10, 200))) =
     Inr (0, 0, 500, 400) \<and>
   2 * MARGIN_BORDER < 500 \<and> 2 * MARGIN_BORDER < 400 \<and>
   (\<exists>dx dy.
      isMouseNearBorder small_env (border_state (10, 200)) =
        Inr ((last_screen_left (border_state (10, 200)) + dx,
              last_screen_top (border_state (10, 200)) + dy),
             (border_state (10, 200))
               \<lparr>last_mouse_pos := cursor (border_state (10, 200)),
                 last_screen_left := last_screen_left (border_state (10, 200)) + dx,
                 last_screen_top := last_screen_top (border_state (10, 200)) + dy\<rparr>) \<and>
      dx = - 40 \<and> dy = 0) \<and>
   getMagnifierWindow low_env (low_state (5, 48))
      (last_screen_left (low_state (5, 48))) (last_screen_top (low_state (5, 48))) =
     Inr (0, 0, 128, 96) \<and>
   2 * MARGIN_BORDER < 128 \<and> (96 :: rat) < 2 * MARGIN_BORDER \<and>
   (\<exists>dx dy.
      isMouseNearBorder low_env (low_state (5, 48)) =
        Inr ((last_screen_left (low_state (5, 48)) + dx,
              last_screen_top (low_state (5, 48)) + dy),
             (low_state (5, 48))
               \<lparr>last_mouse_pos := cursor (low_state (5, 48)),
                 last_screen_left := last_screen_left (low_state (5, 48)) + dx,
                 last_screen_top := last_screen_top (low_state (5, 48)) + dy\<rparr>) \<and>
      dx = - 45)"
proof -
  have vp: "getMagnifierWindow small_env (border_state (10, 200))
      (last_screen_left (border_state (10, 200))) (last_screen_top (border_state (10, 200))) =
     Inr (0, 0, 500, 400)"
    by (simp add: getMagnifierWindow_def small_env_def border_state_def init_def py_int_def
        Let_def)
  have w: "2 * MARGIN_BORDER < 500" "2 * MARGIN_BORDER < 400"
    by (simp_all add: MARGIN_BORDER_def)
  have c: "(10 :: rat) = of_int (fst (cursor (border_state (10, 200))))"
    "(200 :: rat) = of_int (snd (cursor (border_state (10, 200))))"
    by (simp_all add: border_state_def init_def)
  have b: "(50 :: rat) = of_int 0 + MARGIN_BORDER" "(450 :: rat) = of_int 0 + 500 - MARGIN_BORDER"
    "(350 :: rat) = of_int 0 + 400 - MARGIN_BORDER"
    by (simp_all add: MARGIN_BORDER_def)
  have first: "\<exists>dx dy.
      isMouseNearBorder small_env (border_state (10, 200)) =
        Inr ((last_screen_left (border_state (10, 200)) + dx,
              last_screen_top (border_state (10, 200)) + dy),
             (border_state (10, 200))
               \<lparr>last_mouse_pos := cursor (border_state (10, 200)),
                 last_screen_left := last_screen_left (border_state (10, 200)) + dx,
                 last_screen_top := last_screen_top (border_state (10, 200)) + dy\<rparr>) \<and>
      dx = - 40 \<and> dy = 0"
    using isMouseNearBorder_dead_zone [OF vp b(1) b(2) b(1) b(3) c] w by auto
  have vp': "getMagnifierWindow low_env (low_state (5, 48))
      (last_screen_left (low_state (5, 48))) (last_screen_top (low_state (5, 48))) =
     Inr (0, 0, 128, 96)"
    by (simp add: getMagnifierWindow_def low_env_def low_state_def init_def py_int_def Let_def)
  have w': "2 * MARGIN_BORDER < 128" "(96 :: rat) < 2 * MARGIN_BORDER"
    by (simp_all add: MARGIN_BORDER_def)
  have c': "(5 :: rat) = of_int (fst (cursor (low_state (5, 48))))"
    "(48 :: rat) = of_int (snd (cursor (low_state (5, 48))))"
    by (simp_all add: low_state_def init_def)
  have b': "(78 :: rat) = of_int 0 + 128 - MARGIN_BORDER"
    "(46 :: rat) = of_int 0 + 96 - MARGIN_BORDER"
    by (simp_all add: MARGIN_BORDER_def)
  have second: "\<exists>dx dy.
      isMouseNearBorder low_env (low_state (5, 48)) =
        Inr ((last_screen_left (low_state (5, 48)) + dx,
              last_screen_top (low_state (5, 48)) + dy),
             (low_state (5, 48))
               \<lparr>last_mouse_pos := cursor (low_state (5, 48)),
                 last_screen_left := last_screen_left (low_state (5, 48)) + dx,
                 last_screen_top := last_screen_top (low_state (5, 48)) + dy\<rparr>) \<and>
      dx = - 45"
    using isMouseNearBorder_dead_zone [OF vp' b(1) b'(1) b(1) b'(2) c'] w'(1) by auto
  from vp w first vp' w' second show ?thesis by blast
qed

text \<open>
  C5, as the code has it. For a viewport of width at most twice the margin the border
  computation returns a value, but it does not clamp the inverted bounds: the shift is
  \<open>pointer.x - min_x\<close> for a pointer left of \<open>min_x\<close> and \<open>pointer.x - max_x\<close> for every other
  pointer. When the width is below twice the margin, \<open>max_x < min_x\<close> and the shift is never
  0: pointers on the two sides of \<open>min_x\<close> are measured against two different bounds. Only
  at a width of exactly twice the margin do the bounds coincide. Likewise for the height.
\<close>

theorem isMouseNearBorder_inverted_bounds:
  assumes vp: "getMagnifierWindow e s (last_screen_left s) (last_screen_top s) =
                 Inr (left, top', vw, vh)"
    and bounds: "min_x = of_int left + MARGIN_BORDER" "max_x = of_int left + vw - MARGIN_BORDER"
      "min_y = of_int top' + MARGIN_BORDER" "max_y = of_int top' + vh - MARGIN_BORDER"
    and ptr: "mouse_x = of_int (fst (cursor s))" "mouse_y = of_int (snd (cursor s))"
  shows "\<exists>dx dy.
           isMouseNearBorder e s =
             Inr ((last_screen_left s + dx, last_screen_top s + dy),
                  s\<lparr>last_mouse_pos := cursor s,
                    last_screen_left := last_screen_left s + dx,
                    last_screen_top := last_screen_top s + dy\<rparr>) \<and>
           (vw \<le> 2 * MARGIN_BORDER \<longrightarrow>
              dx = (if mouse_x < min_x then mouse_x - min_x else mouse_x - max_x)) \<and>
           (vw < 2 * MARGIN_BORDER \<longrightarrow> max_x < min_x \<and> dx \<noteq> 0) \<and>
           (vw = 2 * MARGIN_BORDER \<longrightarrow> min_x = max_x) \<and>
           (vh \<le> 2 * MARGIN_BORDER \<longrightarrow>
              dy = (if mouse_y < min_y then mouse_y - min_y else mouse_y - max_y)) \<and>
           (vh < 2 * MARGIN_BORDER \<longrightarrow> max_y < min_y \<and> dy \<noteq> 0) \<and>
           (vh = 2 * MARGIN_BORDER \<longrightarrow> min_y = max_y)"
proof -
  define dx where "dx = (if mouse_x < min_x then mouse_x - min_x
                         else if mouse_x > max_x then mouse_x - max_x else 0)"
  define dy where "dy = (if mouse_y < min_y then mouse_y - min_y
                         else if mouse_y > max_y then mouse_y - max_y else 0)"
  have r: "isMouseNearBorder e s =
             Inr ((last_screen_left s + dx, last_screen_top s + dy),
                  s\<lparr>last_mouse_pos := cursor s,
                    last_screen_left := last_screen_left s + dx,
                    last_screen_top := last_screen_top s + dy\<rparr>)"
    by (rule isMouseNearBorder_result [OF vp]) (simp_all add: dx_def dy_def bounds ptr)
  have x1: "vw \<le> 2 * MARGIN_BORDER \<longrightarrow>
              dx = (if mouse_x < min_x then mouse_x - min_x else mouse_x - max_x)"
    using bounds(1,2) by (auto simp: dx_def)
  have x2: "vw < 2 * MARGIN_BORDER \<longrightarrow> max_x < min_x \<and> dx \<noteq> 0"
    using bounds(1,2) by (auto simp: dx_def)
  have x3: "vw = 2 * MARGIN_BORDER \<longrightarrow> min_x = max_x"
    using bounds(1,2) by auto
  have y1: "vh \<le> 2 * MARGIN_BORDER \<longrightarrow>
              dy = (if mouse_y < min_y then mouse_y - min_y else mouse_y - max_y)"
    using bounds(3,4) by (auto simp: dy_def)
  have y2: "vh < 2 * MARGIN_BORDER \<longrightarrow> max_y < min_y \<and> dy \<noteq> 0"
    using bounds(3,4) by (auto simp: dy_def)
  have y3: "vh = 2 * MARGIN_BORDER \<longrightarrow> min_y = max_y"
    using bounds(3,4) by auto
  from r x1 x2 x3 y1 y2 y3 show ?thesis by blast
qed

theorem isMouseNearBorder_inverted_bounds_witness:
  "getMagnifierWindow narrow_env (narrow_state (60, 20))
      (last_screen_left (narrow_state (60, 20))) (last_screen_top (narrow_state (60, 20))) =
     Inr (0, 0, 80, 60) \<and>
   (80 :: rat) < 2 * MARGIN_BORDER \<and> (60 :: rat) < 2 * MARGIN_BORDER \<and>
   (\<exists>dx dy.
      isMouseNearBorder narrow_env (narrow_state (60, 20)) =
        Inr ((last_screen_left (narrow_state (60, 20)) + dx,
              last_screen_top (narrow_state (60, 20)) + dy),
             (narrow_state (60, 20))
               \<lparr>last_mouse_pos := cursor (narrow_state (60, 20)),
                 last_screen_left := last_screen_left (narrow_state (60, 20)) + dx,
                 last_screen_top := last_screen_top (narrow_state (60, 20)) + dy\<rparr>) \<and>
      dx = 30 \<and> dy = - 30)"
proof -
  have vp: "getMagnifierWindow narrow_env (narrow_state (60, 20))
      (last_screen_left (narrow_state (60, 20))) (last_screen_top (narrow_state (60, 20))) =
     Inr (0, 0, 80, 60)"
    by (simp add: getMagnifierWindow_def narrow_env_def narrow_state_def init_def py_int_def
        Let_def)
  have n: "(80 :: rat) < 2 * MARGIN_BORDER" "(60 :: rat) < 2 * MARGIN_BORDER"
    by (simp_all add: MARGIN_BORDER_def)
  have c: "(60 :: rat) = of_int (fst (cursor (narrow_state (60, 20))))"
    "(20 :: rat) = of_int (snd (cursor (narrow_state (60, 20))))"
    by (simp_all add: narrow_state_def init_def)
  have b: "(50 :: rat) = of_int 0 + MARGIN_BORDER" "(30 :: rat) = of_int 0 + 80 - MARGIN_BORDER"
    "(10 :: rat) = of_int 0 + 60 - MARGIN_BORDER"
    by (simp_all add: MARGIN_BORDER_def)
  from isMouseNearBorder_inverted_bounds [OF vp b(1) b(2) b(1) b(3) c]
  show ?thesis using vp n by auto
qed

text \<open>
  C5 as stated fails. At zoom 10 on the 800 by 600 screen the viewport is \<open>(0, 0, 80, 60)\<close>,
  so \<open>min_x = 50\<close> and \<open>max_x = 30\<close>. A zero-width dead-zone at one clamped bound \<open>p\<close> would
  shift by \<open>pointer.x - p\<close>: the shifts of two pointers would differ by the distance of the
  pointers. The pointers at \<open>x = 40\<close> and \<open>x = 60\<close> are 20 apart and are shifted by \<open>- 10\<close>
  and \<open>30\<close>, which are 40 apart (the anchor starts at 0, so the value returned is the shift).
\<close>

theorem isMouseNearBorder_no_clamp_counterexample:
  "getMagnifierWindow narrow_env (narrow_state (40, 20)) 0 0 = Inr (0, 0, 80, 60) \<and>
   getMagnifierWindow narrow_env (narrow_state (60, 20)) 0 0 = Inr (0, 0, 80, 60) \<and>
   map_sum id fst (isMouseNearBorder narrow_env (narrow_state (40, 20))) = Inr (- 10, - 30) \<and>
   map_sum id fst (isMouseNearBorder narrow_env (narrow_state (60, 20))) = Inr (30, - 30)"
  by (simp add: isMouseNearBorder_def getMagnifierWindow_def narrow_env_def narrow_state_def
      init_def py_int_def MARGIN_BORDER_def Let_def)

section \<open>Handlers: lemmas\<close>

lemma getMagnifierWindow_total:
  assumes "zoom s \<noteq> 0"
  shows "\<exists>left top' vw vh. getMagnifierWindow e s x y = Inr (left, top', vw, vh)"
  using assms by (simp add: getMagnifierWindow_def Let_def)

lemma getMagnifierWindow_zoom_only:
  "zoom s1 = zoom s \<Longrightarrow> getMagnifierWindow e s1 x y = getMagnifierWindow e s x y"
  by (simp add: getMagnifierWindow_def)

lemma continueMagnifier_fields:
  "magnifier_is_on (continueMagnifier s) = magnifier_is_on s"
  "zoom (continueMagnifier s) = zoom s"
  "mode (continueMagnifier s) = mode s"
  "last_mouse_pos (continueMagnifier s) = last_mouse_pos s"
  "last_nvda_pos (continueMagnifier s) = last_nvda_pos s"
  "last_screen_left (continueMagnifier s) = last_screen_left s"
  "last_screen_top (continueMagnifier s) = last_screen_top s"
  "cursor (continueMagnifier s) = cursor s"
  by (simp_all add: continueMagnifier_def timer_Stop_def CallLater_def resetMagnifier_def
      Let_def split: option.splits)

lemma continueMagnifier_effects:
  "effects (continueMagnifier s) =
     effects s @ (if magnifier_is_on s then [] else [MagSetFullscreenTransform 1 0 0])"
  by (simp add: continueMagnifier_def timer_Stop_def CallLater_def resetMagnifier_def
      Let_def split: option.splits)

lemma continueMagnifier_timer:
  "timer (continueMagnifier s) = (if magnifier_is_on s then Some (next_timer s) else None)"
  by (simp add: continueMagnifier_def timer_Stop_def CallLater_def resetMagnifier_def
      Let_def split: option.splits)

lemma continueMagnifier_pending:
  "pending (continueMagnifier s) =
     (case timer s of None \<Rightarrow> pending s | Some t \<Rightarrow> removeAll t (pending s)) @
     (if magnifier_is_on s then [next_timer s] else [])"
  by (simp add: continueMagnifier_def timer_Stop_def CallLater_def resetMagnifier_def
      Let_def split: option.splits)

lemma new_effects_append:
  "effects s' = effects s @ es \<Longrightarrow> new_effects s s' = es"
  by (simp add: new_effects_def)

lemma centerMagnifier_result:
  assumes "getMagnifierWindow e s x y = Inr (left, top', vw, vh)"
  shows "centerMagnifier e x y s =
           Inr (continueMagnifier
                  (s\<lparr>effects := effects s @ [MagSetFullscreenTransform (zoom s) left top']\<rparr>))"
  using assms by (simp add: centerMagnifier_def)

text \<open>
  What a tick does, in all three branches: it returns (when the zoom is not 0), and the log,
  the stored positions, the pointer and the timers change as listed.
\<close>

lemma focusOnMouse_result:
  assumes z: "zoom s \<noteq> 0"
  shows "\<exists>x y. focusOnMouse e pos s =
           Inr ((x, y),
                s\<lparr>last_mouse_pos := (if mode s = Border then cursor s else pos),
                  last_screen_left := x, last_screen_top := y\<rparr>)"
proof (cases "mode s = Border")
  case True
  let ?s1 = "s\<lparr>last_mouse_pos := pos\<rparr>"
  have "zoom ?s1 \<noteq> 0" using z by simp
  then obtain left top' vw vh where
    g: "getMagnifierWindow e ?s1 (last_screen_left ?s1) (last_screen_top ?s1) =
          Inr (left, top', vw, vh)"
    using getMagnifierWindow_total by blast
  have "\<exists>dx dy. isMouseNearBorder e ?s1 =
           Inr ((last_screen_left ?s1 + dx, last_screen_top ?s1 + dy),
                ?s1\<lparr>last_mouse_pos := cursor ?s1,
                  last_screen_left := last_screen_left ?s1 + dx,
                  last_screen_top := last_screen_top ?s1 + dy\<rparr>)"
    using isMouseNearBorder_result [OF g] by blast
  then show ?thesis using True by (auto simp: focusOnMouse_def)
next
  case False
  then show ?thesis by (simp add: focusOnMouse_def)
qed

lemma chooseFocus_result:
  assumes z: "zoom s \<noteq> 0"
  shows "\<exists>s' left top'.
           chooseFocus e s = Inr s' \<and>
           new_effects s s' =
             (if last_nvda_pos s \<noteq> nvda_pos e
              then [SetCursorPos (nvda_pos e), MagSetFullscreenTransform (zoom s) left top']
              else if last_mouse_pos s \<noteq> cursor s
              then [MagSetFullscreenTransform (zoom s) left top']
              else []) @
             (if magnifier_is_on s then [] else [MagSetFullscreenTransform 1 0 0]) \<and>
           magnifier_is_on s' = magnifier_is_on s \<and> zoom s' = zoom s \<and> mode s' = mode s \<and>
           last_nvda_pos s' = nvda_pos e \<and>
           (last_nvda_pos s \<noteq> nvda_pos e \<longrightarrow>
              last_screen_left s' = of_int (fst (nvda_pos e)) \<and>
              last_screen_top s' = of_int (snd (nvda_pos e))) \<and>
           last_mouse_pos s' =
             (if last_nvda_pos s \<noteq> nvda_pos e then last_mouse_pos s else cursor s) \<and>
           cursor s' = (if last_nvda_pos s \<noteq> nvda_pos e then nvda_pos e else cursor s) \<and>
           timer s' = (if magnifier_is_on s then Some (next_timer s) else None) \<and>
           pending s' =
             (case timer s of None \<Rightarrow> pending s | Some t \<Rightarrow> removeAll t (pending s)) @
             (if magnifier_is_on s then [next_timer s] else [])"
proof -
  consider (nvda) "last_nvda_pos s \<noteq> nvda_pos e"
    | (mouse) "last_nvda_pos s = nvda_pos e" "last_mouse_pos s \<noteq> cursor s"
    | (idle) "last_nvda_pos s = nvda_pos e" "last_mouse_pos s = cursor s"
    by blast
  then show ?thesis
  proof cases
    case nvda
    let ?s1 = "snd (focusOnNvda (nvda_pos e) s)"
    let ?x = "of_int (fst (nvda_pos e)) :: rat"
    let ?y = "of_int (snd (nvda_pos e)) :: rat"
    have z1: "zoom ?s1 \<noteq> 0" using z by (simp add: focusOnNvda_def)
    obtain left top' vw vh where
      g: "getMagnifierWindow e ?s1 ?x ?y = Inr (left, top', vw, vh)"
      using getMagnifierWindow_total [OF z1] by blast
    let ?s' = "continueMagnifier
                 (?s1\<lparr>effects := effects ?s1 @ [MagSetFullscreenTransform (zoom ?s1) left top']\<rparr>)"
    have "chooseFocus e s = centerMagnifier e ?x ?y ?s1"
      using nvda by (simp add: chooseFocus_def focusOnNvda_def)
    then have r: "chooseFocus e s = Inr ?s'"
      using centerMagnifier_result [OF g] by simp
    have n: "new_effects s ?s' =
               [SetCursorPos (nvda_pos e), MagSetFullscreenTransform (zoom s) left top'] @
               (if magnifier_is_on s then [] else [MagSetFullscreenTransform 1 0 0])"
      by (rule new_effects_append) (simp add: continueMagnifier_effects focusOnNvda_def)
    have f: "magnifier_is_on ?s' = magnifier_is_on s" "zoom ?s' = zoom s" "mode ?s' = mode s"
      "last_nvda_pos ?s' = nvda_pos e" "last_mouse_pos ?s' = last_mouse_pos s"
      "cursor ?s' = nvda_pos e"
      "last_screen_left ?s' = of_int (fst (nvda_pos e))"
      "last_screen_top ?s' = of_int (snd (nvda_pos e))"
      "timer ?s' = (if magnifier_is_on s then Some (next_timer s) else None)"
      "pending ?s' =
         (case timer s of None \<Rightarrow> pending s | Some t \<Rightarrow> removeAll t (pending s)) @
         (if magnifier_is_on s then [next_timer s] else [])"
      by (simp_all add: continueMagnifier_fields continueMagnifier_timer
          continueMagnifier_pending focusOnNvda_def split: option.splits)
    show ?thesis using nvda r n f by (intro exI [of _ ?s'] exI [of _ left] exI [of _ top']) simp
  next
    case mouse
    obtain x y where
      m: "focusOnMouse e (cursor s) s =
            Inr ((x, y),
                 s\<lparr>last_mouse_pos := (if mode s = Border then cursor s else cursor s),
                   last_screen_left := x, last_screen_top := y\<rparr>)"
      using focusOnMouse_result [OF z] by blast
    let ?s1 = "s\<lparr>last_mouse_pos := cursor s, last_screen_left := x, last_screen_top := y\<rparr>"
    have m': "focusOnMouse e (cursor s) s = Inr ((x, y), ?s1)" using m by simp
    have z1: "zoom ?s1 \<noteq> 0" using z by simp
    obtain left top' vw vh where
      g: "getMagnifierWindow e ?s1 x y = Inr (left, top', vw, vh)"
      using getMagnifierWindow_total [OF z1] by blast
    let ?s' = "continueMagnifier
                 (?s1\<lparr>effects := effects ?s1 @ [MagSetFullscreenTransform (zoom ?s1) left top']\<rparr>)"
    have "chooseFocus e s = centerMagnifier e x y ?s1"
      using mouse m' by (simp add: chooseFocus_def)
    then have r: "chooseFocus e s = Inr ?s'"
      using centerMagnifier_result [OF g] by simp
    have n: "new_effects s ?s' =
               [MagSetFullscreenTransform (zoom s) left top'] @
               (if magnifier_is_on s then [] else [MagSetFullscreenTransform 1 0 0])"
      by (rule new_effects_append) (simp add: continueMagnifier_effects)
    have f: "magnifier_is_on ?s' = magnifier_is_on s" "zoom ?s' = zoom s" "mode ?s' = mode s"
      "last_nvda_pos ?s' = nvda_pos e" "last_mouse_pos ?s' = cursor s"
      "cursor ?s' = cursor s"
      "timer ?s' = (if magnifier_is_on s then Some (next_timer s) else None)"
      "pending ?s' =
         (case timer s of None \<Rightarrow> pending s | Some t \<Rightarrow> removeAll t (pending s)) @
         (if magnifier_is_on s then [next_timer s] else [])"
      using mouse(1)
      by (simp_all add: continueMagnifier_fields continueMagnifier_timer
          continueMagnifier_pending split: option.splits)
    show ?thesis using mouse r n f by (intro exI [of _ ?s'] exI [of _ left] exI [of _ top']) simp
  next
    case idle
    let ?s' = "continueMagnifier s"
    have r: "chooseFocus e s = Inr ?s'" using idle by (simp add: chooseFocus_def)
    have n: "new_effects s ?s' =
               (if magnifier_is_on s then [] else [MagSetFullscreenTransform 1 0 0])"
      by (rule new_effects_append) (simp add: continueMagnifier_effects)
    show ?thesis
      using idle r n
      by (intro exI [of _ ?s'] exI [of _ 0])
        (simp add: continueMagnifier_fields continueMagnifier_timer continueMagnifier_pending)
  qed
qed

text \<open>The example states, written out.\<close>

lemma active_state_eq:
  "active_state c =
     \<lparr>timer = Some 0, magnifier_is_on = True, zoom = 2,
      last_mouse_pos = (0, 0), last_nvda_pos = (0, 0),
      last_screen_left = 0, last_screen_top = 0, mode = Center,
      cursor = c, pending = [0], next_timer = 1,
      effects = [Message (MsgStarted Center)]\<rparr>"
  by (simp add: active_state_def script_toggleMagnifier_def init_def ui_message_def
      CallLater_def)

lemma stopped_state_eq:
  "stopped_state c =
     \<lparr>timer = Some 0, magnifier_is_on = False, zoom = 2,
      last_mouse_pos = (0, 0), last_nvda_pos = (0, 0),
      last_screen_left = 0, last_screen_top = 0, mode = Center,
      cursor = c, pending = [0], next_timer = 1,
      effects = [Message (MsgStarted Center), MagSetFullscreenTransform 1 0 0,
                 Message MsgStopped]\<rparr>"
  by (simp add: stopped_state_def active_state_eq script_toggleMagnifier_def ui_message_def
      resetMagnifier_def)

section \<open>Focus arbitration: the claims\<close>

text \<open>
  C1. In every tick in which both the accessibility position and the pointer position differ
  from their last-seen values, the handler takes the accessibility branch: the target handed
  to \<open>centerMagnifier\<close> is the fresh accessibility position, the stored last accessibility
  position and the anchor are set to it, and the pointer device is warped to it. The log
  gains the warp, then the renderer call for the viewport of that position (and the reset of
  the teardown when the session was switched off in the meantime). A zoom of 0, which no
  command produces, is excluded: the viewport computation raises there.
\<close>

theorem chooseFocus_accessibility_wins:
  assumes nvda: "last_nvda_pos s \<noteq> nvda_pos e"
    and mouse: "last_mouse_pos s \<noteq> cursor s"
    and z: "zoom s \<noteq> 0"
  shows "\<exists>left top' vw vh s'.
           fst (focusOnNvda (nvda_pos e) s) =
             (of_int (fst (nvda_pos e)), of_int (snd (nvda_pos e))) \<and>
           chooseFocus e s =
             centerMagnifier e (of_int (fst (nvda_pos e))) (of_int (snd (nvda_pos e)))
               (snd (focusOnNvda (nvda_pos e) s)) \<and>
           getMagnifierWindow e s (of_int (fst (nvda_pos e))) (of_int (snd (nvda_pos e))) =
             Inr (left, top', vw, vh) \<and>
           chooseFocus e s = Inr s' \<and>
           last_nvda_pos s' = nvda_pos e \<and>
           last_screen_left s' = of_int (fst (nvda_pos e)) \<and>
           last_screen_top s' = of_int (snd (nvda_pos e)) \<and>
           cursor s' = nvda_pos e \<and>
           new_effects s s' =
             [SetCursorPos (nvda_pos e), MagSetFullscreenTransform (zoom s) left top'] @
             (if magnifier_is_on s then [] else [MagSetFullscreenTransform 1 0 0])"
proof -
  let ?p = "nvda_pos e"
  let ?x = "of_int (fst ?p) :: rat"
  let ?y = "of_int (snd ?p) :: rat"
  let ?s1 = "snd (focusOnNvda ?p s)"
  obtain left top' vw vh where g: "getMagnifierWindow e s ?x ?y = Inr (left, top', vw, vh)"
    using getMagnifierWindow_total [OF z] by blast
  have g1: "getMagnifierWindow e ?s1 ?x ?y = Inr (left, top', vw, vh)"
    using g getMagnifierWindow_zoom_only [of ?s1 s e ?x ?y] by (simp add: focusOnNvda_def)
  let ?s' = "continueMagnifier
               (?s1\<lparr>effects := effects ?s1 @ [MagSetFullscreenTransform (zoom ?s1) left top']\<rparr>)"
  have t: "fst (focusOnNvda ?p s) = (?x, ?y)" by (simp add: focusOnNvda_def)
  have c: "chooseFocus e s = centerMagnifier e ?x ?y ?s1"
    using nvda by (simp add: chooseFocus_def focusOnNvda_def)
  have r: "chooseFocus e s = Inr ?s'"
    unfolding c by (rule centerMagnifier_result [OF g1])
  have f: "last_nvda_pos ?s' = ?p" "last_screen_left ?s' = ?x" "last_screen_top ?s' = ?y"
    "cursor ?s' = ?p"
    by (simp_all add: continueMagnifier_fields focusOnNvda_def)
  have "effects ?s' =
          effects s @ ([SetCursorPos ?p, MagSetFullscreenTransform (zoom s) left top'] @
            (if magnifier_is_on s then [] else [MagSetFullscreenTransform 1 0 0]))"
    by (simp add: continueMagnifier_effects focusOnNvda_def)
  then have n: "new_effects s ?s' =
          [SetCursorPos ?p, MagSetFullscreenTransform (zoom s) left top'] @
            (if magnifier_is_on s then [] else [MagSetFullscreenTransform 1 0 0])"
    by (rule new_effects_append)
  from t c g r f n show ?thesis by blast
qed

theorem chooseFocus_accessibility_wins_witness:
  "last_nvda_pos (active_state (7, 7)) \<noteq> nvda_pos focus_env \<and>
   last_mouse_pos (active_state (7, 7)) \<noteq> cursor (active_state (7, 7)) \<and>
   zoom (active_state (7, 7)) \<noteq> 0 \<and>
   (\<exists>s'. getMagnifierWindow focus_env (active_state (7, 7)) 960 540 =
            Inr (480, 270, 960, 540) \<and>
          chooseFocus focus_env (active_state (7, 7)) = Inr s' \<and>
          last_nvda_pos s' = (960, 540) \<and>
          last_screen_left s' = 960 \<and> last_screen_top s' = 540 \<and>
          cursor s' = (960, 540) \<and>
          new_effects (active_state (7, 7)) s' =
            [SetCursorPos (960, 540), MagSetFullscreenTransform 2 480 270])"
proof -
  note a = active_state_eq [of "(7, 7)"]
  have h1: "last_nvda_pos (active_state (7, 7)) \<noteq> nvda_pos focus_env"
    by (simp add: a focus_env_def)
  have h2: "last_mouse_pos (active_state (7, 7)) \<noteq> cursor (active_state (7, 7))"
    by (simp add: a)
  have h3: "zoom (active_state (7, 7)) \<noteq> 0" by (simp add: a)
  have g: "getMagnifierWindow focus_env (active_state (7, 7)) 960 540 =
             Inr (480, 270, 960, 540)"
    by (simp add: a getMagnifierWindow_def focus_env_def py_int_def Let_def)
  have n: "nvda_pos focus_env = (960, 540)" by (simp add: focus_env_def)
  have o: "magnifier_is_on (active_state (7, 7))" "zoom (active_state (7, 7)) = 2"
    by (simp_all add: a)
  let ?a = "active_state (7, 7)"
  have "\<exists>left top' vw vh s'.
          getMagnifierWindow focus_env ?a (of_int (fst (nvda_pos focus_env)))
            (of_int (snd (nvda_pos focus_env))) = Inr (left, top', vw, vh) \<and>
          chooseFocus focus_env ?a = Inr s' \<and>
          last_nvda_pos s' = nvda_pos focus_env \<and>
          last_screen_left s' = of_int (fst (nvda_pos focus_env)) \<and>
          last_screen_top s' = of_int (snd (nvda_pos focus_env)) \<and>
          cursor s' = nvda_pos focus_env \<and>
          new_effects ?a s' =
            [SetCursorPos (nvda_pos focus_env), MagSetFullscreenTransform (zoom ?a) left top'] @
            (if magnifier_is_on ?a then [] else [MagSetFullscreenTransform 1 0 0])"
    using chooseFocus_accessibility_wins [OF h1 h2 h3] by blast
  then obtain left top' vw vh s' where
    r: "getMagnifierWindow focus_env (active_state (7, 7)) 960 540 = Inr (left, top', vw, vh)"
      "chooseFocus focus_env (active_state (7, 7)) = Inr s'"
      "last_nvda_pos s' = (960, 540)"
      "last_screen_left s' = 960" "last_screen_top s' = 540"
      "cursor s' = (960, 540)"
      "new_effects (active_state (7, 7)) s' =
         [SetCursorPos (960, 540), MagSetFullscreenTransform 2 left top']"
    unfolding n by (auto simp: o)
  have "left = 480" "top' = 270" using r(1) g by simp_all
  with r h1 h2 h3 g show ?thesis by simp
qed

text \<open>
  C6. In every tick in which neither position differs from its last-seen value, the handler
  does not re-centre: it only runs \<open>continueMagnifier\<close>, which re-arms or performs the
  teardown, and the log gains no transform call. While the session is on, the tick makes no
  renderer call at all and arms a new timer; when the session was switched off, the teardown
  stops the timer, leaves none in \<^verbatim>\<open>self.timer\<close> and resets the renderer, its only call.
  The tracking fields, the zoom and the mode keep their values.
\<close>

theorem chooseFocus_idle:
  assumes "last_nvda_pos s = nvda_pos e" and "last_mouse_pos s = cursor s"
  shows "\<exists>s'. chooseFocus e s = Inr s' \<and>
           apply_calls (new_effects s s') = [] \<and>
           (magnifier_is_on s \<longrightarrow>
              new_effects s s' = [] \<and> timer s' = Some (next_timer s) \<and>
              next_timer s \<in> set (pending s')) \<and>
           (\<not> magnifier_is_on s \<longrightarrow>
              new_effects s s' = [MagSetFullscreenTransform 1 0 0] \<and> timer s' = None \<and>
              (\<forall>t. timer s = Some t \<longrightarrow> t \<notin> set (pending s'))) \<and>
           zoom s' = zoom s \<and> mode s' = mode s \<and>
           last_nvda_pos s' = last_nvda_pos s \<and> last_mouse_pos s' = last_mouse_pos s \<and>
           last_screen_left s' = last_screen_left s \<and> last_screen_top s' = last_screen_top s \<and>
           cursor s' = cursor s \<and> magnifier_is_on s' = magnifier_is_on s"
proof -
  let ?s' = "continueMagnifier s"
  have r: "chooseFocus e s = Inr ?s'"
    using assms by (simp add: chooseFocus_def)
  have n: "new_effects s ?s' = (if magnifier_is_on s then [] else [MagSetFullscreenTransform 1 0 0])"
    by (rule new_effects_append) (simp add: continueMagnifier_effects)
  have a: "apply_calls (new_effects s ?s') = []"
    by (simp add: n apply_calls_def renderer_calls_def)
  have p: "magnifier_is_on s \<longrightarrow> next_timer s \<in> set (pending ?s')"
    by (simp add: continueMagnifier_pending)
  have q: "\<not> magnifier_is_on s \<longrightarrow> (\<forall>t. timer s = Some t \<longrightarrow> t \<notin> set (pending ?s'))"
    by (simp add: continueMagnifier_pending)
  show ?thesis
    using r n a p q by (simp add: continueMagnifier_fields continueMagnifier_timer)
qed

theorem chooseFocus_idle_witness:
  "last_nvda_pos (active_state (0, 0)) = nvda_pos hd_env \<and>
   last_mouse_pos (active_state (0, 0)) = cursor (active_state (0, 0)) \<and>
   magnifier_is_on (active_state (0, 0)) \<and>
   (\<exists>s'. chooseFocus hd_env (active_state (0, 0)) = Inr s' \<and>
          new_effects (active_state (0, 0)) s' = [] \<and>
          timer s' = Some 1 \<and> zoom s' = 2) \<and>
   last_nvda_pos (stopped_state (0, 0)) = nvda_pos hd_env \<and>
   last_mouse_pos (stopped_state (0, 0)) = cursor (stopped_state (0, 0)) \<and>
   \<not> magnifier_is_on (stopped_state (0, 0)) \<and>
   (\<exists>s'. chooseFocus hd_env (stopped_state (0, 0)) = Inr s' \<and>
          apply_calls (new_effects (stopped_state (0, 0)) s') = [] \<and>
          new_effects (stopped_state (0, 0)) s' = [MagSetFullscreenTransform 1 0 0] \<and>
          timer s' = None \<and> zoom s' = 2)"
proof -
  have h1: "last_nvda_pos (active_state (0, 0)) = nvda_pos hd_env"
    by (simp add: active_state_eq hd_env_def)
  have h2: "last_mouse_pos (active_state (0, 0)) = cursor (active_state (0, 0))"
    by (simp add: active_state_eq)
  have h3: "magnifier_is_on (active_state (0, 0))" "next_timer (active_state (0, 0)) = 1"
    "zoom (active_state (0, 0)) = 2"
    by (simp_all add: active_state_eq)
  from chooseFocus_idle [OF h1 h2]
  obtain s' where "chooseFocus hd_env (active_state (0, 0)) = Inr s'"
    "new_effects (active_state (0, 0)) s' = []" "timer s' = Some 1" "zoom s' = 2"
    using h3 by auto
  then have on: "\<exists>s'. chooseFocus hd_env (active_state (0, 0)) = Inr s' \<and>
          new_effects (active_state (0, 0)) s' = [] \<and>
          timer s' = Some 1 \<and> zoom s' = 2"
    by blast
  have k1: "last_nvda_pos (stopped_state (0, 0)) = nvda_pos hd_env"
    by (simp add: stopped_state_eq hd_env_def)
  have k2: "last_mouse_pos (stopped_state (0, 0)) = cursor (stopped_state (0, 0))"
    by (simp add: stopped_state_eq)
  have k3: "\<not> magnifier_is_on (stopped_state (0, 0))" "zoom (stopped_state (0, 0)) = 2"
    by (simp_all add: stopped_state_eq)
  from chooseFocus_idle [OF k1 k2]
  obtain s'' where "chooseFocus hd_env (stopped_state (0, 0)) = Inr s''"
    "apply_calls (new_effects (stopped_state (0, 0)) s'') = []"
    "new_effects (stopped_state (0, 0)) s'' = [MagSetFullscreenTransform 1 0 0]"
    "timer s'' = None" "zoom s'' = 2"
    using k3 by auto
  then have off: "\<exists>s'. chooseFocus hd_env (stopped_state (0, 0)) = Inr s' \<and>
          apply_calls (new_effects (stopped_state (0, 0)) s') = [] \<and>
          new_effects (stopped_state (0, 0)) s' = [MagSetFullscreenTransform 1 0 0] \<and>
          timer s' = None \<and> zoom s' = 2"
    by blast
  from h1 h2 h3(1) on k1 k2 k3(1) off show ?thesis by blast
qed

section \<open>Commands: the claims\<close>

text \<open>
  C9. In every state with no active session, a zoom request (in either direction) and a
  mode-toggle request are answered with a guidance message and nothing else: the state after
  the command is the state before it with the message appended to the log, so the zoom, the
  mode and all tracking fields keep their values, and no renderer call is made.
\<close>

theorem inactive_commands_rejected:
  assumes "\<not> magnifier_is_on s"
  shows "zoom_by direction e s = Inr (s\<lparr>effects := effects s @ [Message MsgEnableBeforeZoom]\<rparr>) \<and>
         script_zoomIn e s = Inr (s\<lparr>effects := effects s @ [Message MsgEnableBeforeZoom]\<rparr>) \<and>
         script_zoomOut e s = Inr (s\<lparr>effects := effects s @ [Message MsgEnableBeforeZoom]\<rparr>) \<and>
         script_toggleMouseMode s = s\<lparr>effects := effects s @ [Message MsgEnableBeforeMode]\<rparr> \<and>
         renderer_calls (new_effects s (script_toggleMouseMode s)) = [] \<and>
         renderer_calls
           (new_effects s (s\<lparr>effects := effects s @ [Message MsgEnableBeforeZoom]\<rparr>)) = []"
  using assms
  by (simp add: zoom_by_def script_zoomIn_def script_zoomOut_def script_toggleMouseMode_def
      ui_message_def new_effects_def renderer_calls_def)

theorem inactive_commands_rejected_witness:
  "\<not> magnifier_is_on (init (7, 7)) \<and>
   script_zoomIn hd_env (init (7, 7)) =
     Inr ((init (7, 7))\<lparr>effects := [Message MsgEnableBeforeZoom]\<rparr>) \<and>
   script_zoomOut hd_env (init (7, 7)) =
     Inr ((init (7, 7))\<lparr>effects := [Message MsgEnableBeforeZoom]\<rparr>) \<and>
   script_toggleMouseMode (init (7, 7)) =
     (init (7, 7))\<lparr>effects := [Message MsgEnableBeforeMode]\<rparr>"
proof -
  have h: "\<not> magnifier_is_on (init (7, 7))" by (simp add: init_def)
  have e: "effects (init (7, 7)) = []" by (simp add: init_def)
  from inactive_commands_rejected [OF h, of 1 hd_env]
  show ?thesis using h e by simp
qed

section \<open>The tick after an accessibility move\<close>

text \<open>
  C10, as the code has it. A tick won by the accessibility source stores the new
  accessibility position and the anchor and warps the pointer, and leaves the stored last
  pointer position, the zoom and the mode as they were. On the following tick, with the
  accessibility position where it was and the pointer where the warp put it, the pointer
  reading differs from the stored last pointer position exactly when the accessibility
  position differs from it: then the tick is processed as a pointer move (one renderer call,
  no warp, the last pointer position becomes the accessibility position); when the
  accessibility position is the stored last pointer position, the following tick is idle.
\<close>

theorem accessibility_tick_then_pointer:
  assumes nvda: "last_nvda_pos s \<noteq> nvda_pos e"
    and z: "zoom s \<noteq> 0"
    and same: "nvda_pos e' = nvda_pos e"
  shows "\<exists>s'. chooseFocus e s = Inr s' \<and>
           last_nvda_pos s' = nvda_pos e \<and>
           last_screen_left s' = of_int (fst (nvda_pos e)) \<and>
           last_screen_top s' = of_int (snd (nvda_pos e)) \<and>
           cursor s' = nvda_pos e \<and>
           last_mouse_pos s' = last_mouse_pos s \<and> zoom s' = zoom s \<and> mode s' = mode s \<and>
           (nvda_pos e \<noteq> last_mouse_pos s \<longrightarrow>
              cursor s' \<noteq> last_mouse_pos s' \<and>
              (\<exists>s'' left top'.
                 chooseFocus e' s' = Inr s'' \<and>
                 last_mouse_pos s'' = nvda_pos e \<and>
                 new_effects s' s'' =
                   [MagSetFullscreenTransform (zoom s) left top'] @
                   (if magnifier_is_on s then [] else [MagSetFullscreenTransform 1 0 0]))) \<and>
           (nvda_pos e = last_mouse_pos s \<longrightarrow>
              cursor s' = last_mouse_pos s' \<and>
              chooseFocus e' s' = Inr (continueMagnifier s') \<and>
              apply_calls (new_effects s' (continueMagnifier s')) = [])"
proof -
  obtain s' where
    r: "chooseFocus e s = Inr s'"
    and f: "last_nvda_pos s' = nvda_pos e"
      "last_screen_left s' = of_int (fst (nvda_pos e))"
      "last_screen_top s' = of_int (snd (nvda_pos e))"
      "cursor s' = nvda_pos e" "last_mouse_pos s' = last_mouse_pos s"
      "zoom s' = zoom s" "mode s' = mode s" "magnifier_is_on s' = magnifier_is_on s"
    using chooseFocus_result [OF z, of e] nvda by auto
  have z': "zoom s' \<noteq> 0" using z f by simp
  have a: "last_nvda_pos s' = nvda_pos e'" using f same by simp
  have moved: "\<exists>s'' left top'.
                 chooseFocus e' s' = Inr s'' \<and>
                 last_mouse_pos s'' = nvda_pos e \<and>
                 new_effects s' s'' =
                   [MagSetFullscreenTransform (zoom s) left top'] @
                   (if magnifier_is_on s then [] else [MagSetFullscreenTransform 1 0 0])"
    if d: "nvda_pos e \<noteq> last_mouse_pos s"
  proof -
    have m: "last_mouse_pos s' \<noteq> cursor s'" using d f by simp
    from chooseFocus_result [OF z', of e'] obtain s'' left top' where
      "chooseFocus e' s' = Inr s''"
      "new_effects s' s'' =
         [MagSetFullscreenTransform (zoom s') left top'] @
         (if magnifier_is_on s' then [] else [MagSetFullscreenTransform 1 0 0])"
      "last_mouse_pos s'' = cursor s'"
      using a m by auto
    then show ?thesis using f by auto
  qed
  have still: "chooseFocus e' s' = Inr (continueMagnifier s') \<and>
               apply_calls (new_effects s' (continueMagnifier s')) = []"
    if "nvda_pos e = last_mouse_pos s"
  proof -
    have m: "last_mouse_pos s' = cursor s'" using that f by simp
    have "new_effects s' (continueMagnifier s') =
            (if magnifier_is_on s' then [] else [MagSetFullscreenTransform 1 0 0])"
      by (rule new_effects_append) (simp add: continueMagnifier_effects)
    then show ?thesis
      using a m by (simp add: chooseFocus_def apply_calls_def renderer_calls_def)
  qed
  show ?thesis
    using r f moved still by (intro exI [of _ s']) simp
qed

theorem accessibility_tick_then_pointer_witness:
  "last_nvda_pos (active_state (7, 7)) \<noteq> nvda_pos focus_env \<and>
   zoom (active_state (7, 7)) \<noteq> 0 \<and>
   nvda_pos focus_env \<noteq> last_mouse_pos (active_state (7, 7)) \<and>
   (\<exists>s' s''. chooseFocus focus_env (active_state (7, 7)) = Inr s' \<and>
      cursor s' = (960, 540) \<and> last_mouse_pos s' = (0, 0) \<and>
      chooseFocus focus_env s' = Inr s'' \<and> last_mouse_pos s'' = (960, 540))"
proof -
  note a = active_state_eq [of "(7, 7)"]
  have h1: "last_nvda_pos (active_state (7, 7)) \<noteq> nvda_pos focus_env"
    by (simp add: a focus_env_def)
  have h2: "zoom (active_state (7, 7)) \<noteq> 0" by (simp add: a)
  have h3: "nvda_pos focus_env \<noteq> last_mouse_pos (active_state (7, 7))"
    by (simp add: a focus_env_def)
  have n: "nvda_pos focus_env = (960, 540)" "last_mouse_pos (active_state (7, 7)) = (0, 0)"
    by (simp_all add: a focus_env_def)
  from accessibility_tick_then_pointer [OF h1 h2 refl]
  obtain s' where s': "chooseFocus focus_env (active_state (7, 7)) = Inr s'"
    "cursor s' = nvda_pos focus_env"
    "last_mouse_pos s' = last_mouse_pos (active_state (7, 7))"
    "nvda_pos focus_env \<noteq> last_mouse_pos (active_state (7, 7)) \<longrightarrow>
       (\<exists>s''. chooseFocus focus_env s' = Inr s'' \<and> last_mouse_pos s'' = nvda_pos focus_env)"
    by blast
  then obtain s'' where "chooseFocus focus_env s' = Inr s''"
    "last_mouse_pos s'' = nvda_pos focus_env"
    using h3 by blast
  with s' h1 h2 h3 show ?thesis unfolding n by blast
qed

text \<open>
  C10 as stated fails. A session is started with the pointer at \<open>(7, 7)\<close>; its first tick
  finds the accessibility position at \<open>(5, 5)\<close>. On the next tick nothing is focused, the
  accessibility position is \<open>(0, 0)\<close>: the accessibility source wins and the pointer is warped
  to \<open>(0, 0)\<close>, which is the stored last pointer position. The warped pointer reading does
  not differ from it, and the following tick is idle.
\<close>

theorem warp_onto_last_pointer_counterexample:
  "run [ToggleMagnifier, TimerFires 0 corner_env] (init (7, 7)) = Inr refocus_state \<and>
   last_nvda_pos refocus_state \<noteq> nvda_pos hd_env \<and>
   (case chooseFocus hd_env refocus_state of
      Inl err \<Rightarrow> False
    | Inr s' \<Rightarrow>
        cursor s' = nvda_pos hd_env \<and>
        cursor s' = last_mouse_pos s' \<and>
        last_nvda_pos s' = nvda_pos hd_env \<and>
        chooseFocus hd_env s' = Inr (continueMagnifier s') \<and>
        new_effects s' (continueMagnifier s') = [])"
  by (simp add: script_toggleMagnifier_def init_def ui_message_def CallLater_def chooseFocus_def
      corner_env_def hd_env_def focusOnNvda_def centerMagnifier_def getMagnifierWindow_def
      py_int_def Let_def continueMagnifier_def timer_Stop_def refocus_state_def new_effects_def)

section \<open>The zoom invariant\<close>

text \<open>
  An accepted zoom request returns, with the zoom moved by one step and clamped; every event
  keeps the zoom within its bounds and raises nothing, and so does every run.
\<close>

lemma zoom_by_result:
  assumes on: "magnifier_is_on s" and lo: "ZOOM_MIN \<le> zoom s"
  shows "\<exists>s'. zoom_by direction e s = Inr s' \<and>
           zoom s' = (if direction > 0 then min (zoom s + ZOOM_STEP) ZOOM_MAX
                      else max (zoom s - ZOOM_STEP) ZOOM_MIN)"
proof -
  let ?z = "if direction > 0 then min (zoom s + ZOOM_STEP) ZOOM_MAX
            else max (zoom s - ZOOM_STEP) ZOOM_MIN"
  let ?s2 = "ui_message (MsgZoomLevel ?z) (s\<lparr>zoom := ?z\<rparr>)"
  have z2: "zoom ?s2 = ?z" by (simp add: ui_message_def)
  have "0 < ?z"
    using lo by (simp add: ZOOM_MIN_def ZOOM_MAX_def ZOOM_STEP_def min_def max_def)
  then have "zoom ?s2 \<noteq> 0" using z2 by simp
  then obtain left top' vw vh where
    g: "getMagnifierWindow e ?s2 (last_screen_left ?s2) (last_screen_top ?s2) =
          Inr (left, top', vw, vh)"
    using getMagnifierWindow_total by blast
  have "zoom_by direction e s =
          centerMagnifier e (last_screen_left ?s2) (last_screen_top ?s2) ?s2"
    using on by (simp add: zoom_by_def Let_def)
  then have "zoom_by direction e s =
               Inr (continueMagnifier
                      (?s2\<lparr>effects := effects ?s2 @
                               [MagSetFullscreenTransform (zoom ?s2) left top']\<rparr>))"
    using centerMagnifier_result [OF g] by simp
  then show ?thesis using z2 by (auto simp: continueMagnifier_fields)
qed

lemma zoom_by_bounds:
  assumes "ZOOM_MIN \<le> zoom s" and "zoom s \<le> ZOOM_MAX"
  shows "\<exists>s'. zoom_by direction e s = Inr s' \<and> ZOOM_MIN \<le> zoom s' \<and> zoom s' \<le> ZOOM_MAX"
proof (cases "magnifier_is_on s")
  case True
  from zoom_by_result [OF True assms(1), of direction e] obtain s' where
    "zoom_by direction e s = Inr s'"
    "zoom s' = (if direction > 0 then min (zoom s + ZOOM_STEP) ZOOM_MAX
                else max (zoom s - ZOOM_STEP) ZOOM_MIN)"
    by blast
  then show ?thesis
    using assms by (auto simp: ZOOM_MIN_def ZOOM_MAX_def ZOOM_STEP_def min_def max_def)
next
  case False
  then show ?thesis using assms by (simp add: zoom_by_def ui_message_def)
qed

lemma step_bounds:
  assumes "ZOOM_MIN \<le> zoom s" and "zoom s \<le> ZOOM_MAX"
  shows "\<exists>s'. step ev s = Inr s' \<and> ZOOM_MIN \<le> zoom s' \<and> zoom s' \<le> ZOOM_MAX"
proof (cases ev)
  case ToggleMagnifier
  then show ?thesis
    using assms
    by (simp add: script_toggleMagnifier_def ui_message_def CallLater_def resetMagnifier_def)
next
  case (ZoomIn e)
  then show ?thesis using zoom_by_bounds [OF assms] by (simp add: script_zoomIn_def)
next
  case (ZoomOut e)
  then show ?thesis using zoom_by_bounds [OF assms] by (simp add: script_zoomOut_def)
next
  case ToggleMouseMode
  then show ?thesis using assms by (simp add: script_toggleMouseMode_def ui_message_def)
next
  case (TimerFires t e)
  let ?s1 = "s\<lparr>pending := removeAll t (pending s)\<rparr>"
  have "zoom ?s1 \<noteq> 0" using assms(1) by (auto simp: ZOOM_MIN_def)
  from chooseFocus_result [OF this, of e] obtain s' where
    "chooseFocus e ?s1 = Inr s'" "zoom s' = zoom ?s1"
    by blast
  then show ?thesis using TimerFires assms by auto
next
  case (PointerMoved p)
  then show ?thesis using assms by simp
qed

lemma run_bounds:
  assumes "ZOOM_MIN \<le> zoom s" and "zoom s \<le> ZOOM_MAX"
  shows "\<exists>s'. run evs s = Inr s' \<and> ZOOM_MIN \<le> zoom s' \<and> zoom s' \<le> ZOOM_MAX"
  using assms
proof (induction evs arbitrary: s)
  case Nil
  then show ?case by simp
next
  case (Cons ev evs)
  from step_bounds [OF Cons.prems, of ev] obtain s1 where
    s1: "step ev s = Inr s1" "ZOOM_MIN \<le> zoom s1" "zoom s1 \<le> ZOOM_MAX"
    by blast
  from Cons.IH [OF s1(2,3)] show ?case using s1(1) by simp
qed

text \<open>
  C7. The zoom starts at 2; every run of the plug-in from its initial state, whatever the
  commands, ticks and pointer moves, returns without an error in a state with
  \<open>ZOOM_MIN \<le> zoom \<le> ZOOM_MAX\<close>; a zoom-in or zoom-out request on a state within the
  bounds returns a state within the bounds, so repeated zoom-in never exceeds \<open>ZOOM_MAX\<close> and
  repeated zoom-out never goes below \<open>ZOOM_MIN\<close>. Each request of a session changes the zoom
  by exactly \<open>ZOOM_STEP\<close> unless that would cross a bound, where the zoom is put on the bound;
  a request with no session on is turned down before the zoom is touched (C9) and leaves the
  zoom as it is.
\<close>

theorem zoom_stays_in_bounds:
  "zoom (init c) = 2 \<and>
   (\<exists>s. run evs (init c) = Inr s \<and> ZOOM_MIN \<le> zoom s \<and> zoom s \<le> ZOOM_MAX) \<and>
   (ZOOM_MIN \<le> zoom s0 \<and> zoom s0 \<le> ZOOM_MAX \<longrightarrow>
      (\<exists>s1 s2.
         script_zoomIn e s0 = Inr s1 \<and> ZOOM_MIN \<le> zoom s1 \<and> zoom s1 \<le> ZOOM_MAX \<and>
         script_zoomOut e s0 = Inr s2 \<and> ZOOM_MIN \<le> zoom s2 \<and> zoom s2 \<le> ZOOM_MAX \<and>
         (magnifier_is_on s0 \<longrightarrow>
            zoom s1 = (if zoom s0 + ZOOM_STEP \<le> ZOOM_MAX then zoom s0 + ZOOM_STEP
                       else ZOOM_MAX) \<and>
            zoom s2 = (if ZOOM_MIN \<le> zoom s0 - ZOOM_STEP then zoom s0 - ZOOM_STEP
                       else ZOOM_MIN)) \<and>
         (\<not> magnifier_is_on s0 \<longrightarrow> zoom s1 = zoom s0 \<and> zoom s2 = zoom s0)))"
proof -
  have i: "zoom (init c) = 2" by (simp add: init_def)
  have b: "ZOOM_MIN \<le> zoom (init c)" "zoom (init c) \<le> ZOOM_MAX"
    by (simp_all add: i ZOOM_MIN_def ZOOM_MAX_def)
  have r: "\<exists>s. run evs (init c) = Inr s \<and> ZOOM_MIN \<le> zoom s \<and> zoom s \<le> ZOOM_MAX"
    by (rule run_bounds [OF b])
  have st: "\<exists>s1 s2.
         script_zoomIn e s0 = Inr s1 \<and> ZOOM_MIN \<le> zoom s1 \<and> zoom s1 \<le> ZOOM_MAX \<and>
         script_zoomOut e s0 = Inr s2 \<and> ZOOM_MIN \<le> zoom s2 \<and> zoom s2 \<le> ZOOM_MAX \<and>
         (magnifier_is_on s0 \<longrightarrow>
            zoom s1 = (if zoom s0 + ZOOM_STEP \<le> ZOOM_MAX then zoom s0 + ZOOM_STEP
                       else ZOOM_MAX) \<and>
            zoom s2 = (if ZOOM_MIN \<le> zoom s0 - ZOOM_STEP then zoom s0 - ZOOM_STEP
                       else ZOOM_MIN)) \<and>
         (\<not> magnifier_is_on s0 \<longrightarrow> zoom s1 = zoom s0 \<and> zoom s2 = zoom s0)"
    if inv: "ZOOM_MIN \<le> zoom s0" "zoom s0 \<le> ZOOM_MAX"
  proof -
    from zoom_by_bounds [OF inv, of 1 e] obtain s1 where
      s1: "zoom_by 1 e s0 = Inr s1" "ZOOM_MIN \<le> zoom s1" "zoom s1 \<le> ZOOM_MAX"
      by blast
    from zoom_by_bounds [OF inv, of "- 1" e] obtain s2 where
      s2: "zoom_by (- 1) e s0 = Inr s2" "ZOOM_MIN \<le> zoom s2" "zoom s2 \<le> ZOOM_MAX"
      by blast
    have ex: "zoom s1 = (if zoom s0 + ZOOM_STEP \<le> ZOOM_MAX then zoom s0 + ZOOM_STEP
                         else ZOOM_MAX) \<and>
              zoom s2 = (if ZOOM_MIN \<le> zoom s0 - ZOOM_STEP then zoom s0 - ZOOM_STEP
                         else ZOOM_MIN)"
      if on: "magnifier_is_on s0"
      using zoom_by_result [OF on inv(1), of 1 e] zoom_by_result [OF on inv(1), of "- 1" e]
        s1(1) s2(1)
      by (auto simp: min_def max_def)
    have off: "zoom s1 = zoom s0 \<and> zoom s2 = zoom s0" if "\<not> magnifier_is_on s0"
      using that s1(1) s2(1) by (auto simp: zoom_by_def ui_message_def)
    show ?thesis
      using s1 s2 ex off by (auto simp: script_zoomIn_def script_zoomOut_def)
  qed
  from i r st show ?thesis by blast
qed

theorem zoom_stays_in_bounds_witness:
  "ZOOM_MIN \<le> zoom top_zoom_state \<and> zoom top_zoom_state \<le> ZOOM_MAX \<and>
   magnifier_is_on top_zoom_state \<and>
   (\<exists>s. run [ToggleMagnifier, ZoomIn hd_env, ZoomIn hd_env, ZoomOut hd_env] (init (0, 0)) =
           Inr s \<and> ZOOM_MIN \<le> zoom s \<and> zoom s \<le> ZOOM_MAX) \<and>
   (\<exists>s1 s2. script_zoomIn hd_env top_zoom_state = Inr s1 \<and> zoom s1 = 10 \<and>
            script_zoomOut hd_env top_zoom_state = Inr s2 \<and> zoom s2 = 19 / 2)"
proof -
  have z: "zoom top_zoom_state = 10" and on: "magnifier_is_on top_zoom_state"
    by (simp_all add: top_zoom_state_def active_state_eq)
  have h: "ZOOM_MIN \<le> zoom top_zoom_state \<and> zoom top_zoom_state \<le> ZOOM_MAX"
    by (simp add: z ZOOM_MIN_def ZOOM_MAX_def)
  note t = zoom_stays_in_bounds
    [of "(0, 0)" "[ToggleMagnifier, ZoomIn hd_env, ZoomIn hd_env, ZoomOut hd_env]"
        top_zoom_state hd_env]
  have r: "\<exists>s. run [ToggleMagnifier, ZoomIn hd_env, ZoomIn hd_env, ZoomOut hd_env] (init (0, 0)) =
           Inr s \<and> ZOOM_MIN \<le> zoom s \<and> zoom s \<le> ZOOM_MAX"
    using t by blast
  from t h on obtain s1 s2 where
    "script_zoomIn hd_env top_zoom_state = Inr s1"
    "script_zoomOut hd_env top_zoom_state = Inr s2"
    "zoom s1 = (if zoom top_zoom_state + ZOOM_STEP \<le> ZOOM_MAX
                then zoom top_zoom_state + ZOOM_STEP else ZOOM_MAX)"
    "zoom s2 = (if ZOOM_MIN \<le> zoom top_zoom_state - ZOOM_STEP
                then zoom top_zoom_state - ZOOM_STEP else ZOOM_MIN)"
    by blast
  then have "\<exists>s1 s2. script_zoomIn hd_env top_zoom_state = Inr s1 \<and> zoom s1 = 10 \<and>
            script_zoomOut hd_env top_zoom_state = Inr s2 \<and> zoom s2 = 19 / 2"
    by (simp add: z ZOOM_MIN_def ZOOM_MAX_def ZOOM_STEP_def)
  with h on r show ?thesis by blast
qed

section \<open>Deactivation\<close>

lemma script_toggleMagnifier_off:
  assumes "magnifier_is_on s"
  shows "script_toggleMagnifier s =
           s\<lparr>magnifier_is_on := False,
             effects := effects s @ [MagSetFullscreenTransform 1 0 0, Message MsgStopped]\<rparr>"
  using assms by (simp add: script_toggleMagnifier_def ui_message_def resetMagnifier_def)

lemma renderer_calls_simps:
  "renderer_calls [] = []"
  "renderer_calls (MagSetFullscreenTransform z l t # es) =
     MagSetFullscreenTransform z l t # renderer_calls es"
  "renderer_calls (SetCursorPos p # es) = renderer_calls es"
  "renderer_calls (Message m # es) = renderer_calls es"
  by (simp_all add: renderer_calls_def)

text \<open>
  C3, as the code has it. For every active session, the deactivation request switches the
  session off and makes exactly one renderer call at once, the reset; it does not cancel the
  scheduled tick: the armed timers and \<^verbatim>\<open>self.timer\<close> are as before. When an armed timer
  then fires, its tick returns; its renderer calls are at most one transform of the current
  zoom (none when neither position changed) followed by one more reset; after it the session
  is off, \<^verbatim>\<open>self.timer\<close> is empty, and neither the fired timer nor the one
  \<^verbatim>\<open>self.timer\<close> referred to is armed. The zoom of the transform is not 1, so the
  transform is not a reset.
\<close>

theorem deactivation_leaves_tick_armed:
  assumes on: "magnifier_is_on s" and z: "ZOOM_MIN \<le> zoom s" and t: "t \<in> set (pending s)"
  shows "\<not> magnifier_is_on (script_toggleMagnifier s) \<and>
         new_effects s (script_toggleMagnifier s) =
           [MagSetFullscreenTransform 1 0 0, Message MsgStopped] \<and>
         pending (script_toggleMagnifier s) = pending s \<and>
         timer (script_toggleMagnifier s) = timer s \<and>
         (\<exists>s'' left top'.
            step (TimerFires t e) (script_toggleMagnifier s) = Inr s'' \<and>
            renderer_calls (new_effects (script_toggleMagnifier s) s'') =
              (if last_nvda_pos s = nvda_pos e \<and> last_mouse_pos s = cursor s then []
               else [MagSetFullscreenTransform (zoom s) left top']) @
              [MagSetFullscreenTransform 1 0 0] \<and>
            zoom s \<noteq> 1 \<and>
            \<not> magnifier_is_on s'' \<and> timer s'' = None \<and>
            pending s'' =
              (case timer s of
                 None \<Rightarrow> removeAll t (pending s)
               | Some u \<Rightarrow> removeAll u (removeAll t (pending s))))"
proof -
  let ?s1 = "script_toggleMagnifier s"
  let ?s2 = "?s1\<lparr>pending := removeAll t (pending ?s1)\<rparr>"
  note off = script_toggleMagnifier_off [OF on]
  have a: "\<not> magnifier_is_on ?s1" "pending ?s1 = pending s" "timer ?s1 = timer s"
    by (simp_all add: off)
  have n: "new_effects s ?s1 = [MagSetFullscreenTransform 1 0 0, Message MsgStopped]"
    by (rule new_effects_append) (simp add: off)
  have z2: "zoom ?s2 \<noteq> 0" using z by (auto simp: off ZOOM_MIN_def)
  have z1: "zoom s \<noteq> 1" using z by (auto simp: ZOOM_MIN_def)
  have f2: "last_nvda_pos ?s2 = last_nvda_pos s" "last_mouse_pos ?s2 = last_mouse_pos s"
    "cursor ?s2 = cursor s" "zoom ?s2 = zoom s" "\<not> magnifier_is_on ?s2"
    "timer ?s2 = timer s" "pending ?s2 = removeAll t (pending s)"
    "effects ?s2 = effects ?s1"
    by (simp_all add: off)
  from chooseFocus_result [OF z2, of e] obtain s'' left top' where
    r: "chooseFocus e ?s2 = Inr s''"
    and ne: "new_effects ?s2 s'' =
           (if last_nvda_pos ?s2 \<noteq> nvda_pos e
            then [SetCursorPos (nvda_pos e), MagSetFullscreenTransform (zoom ?s2) left top']
            else if last_mouse_pos ?s2 \<noteq> cursor ?s2
            then [MagSetFullscreenTransform (zoom ?s2) left top']
            else []) @
           (if magnifier_is_on ?s2 then [] else [MagSetFullscreenTransform 1 0 0])"
    and g: "magnifier_is_on s'' = magnifier_is_on ?s2"
      "timer s'' = (if magnifier_is_on ?s2 then Some (next_timer ?s2) else None)"
      "pending s'' =
         (case timer ?s2 of None \<Rightarrow> pending ?s2 | Some t \<Rightarrow> removeAll t (pending ?s2)) @
         (if magnifier_is_on ?s2 then [next_timer ?s2] else [])"
    by blast
  have st: "step (TimerFires t e) ?s1 = Inr s''"
    using t r a by simp
  have "new_effects ?s1 s'' = new_effects ?s2 s''"
    by (simp add: new_effects_def f2)
  then have rc: "renderer_calls (new_effects ?s1 s'') =
              (if last_nvda_pos s = nvda_pos e \<and> last_mouse_pos s = cursor s then []
               else [MagSetFullscreenTransform (zoom s) left top']) @
              [MagSetFullscreenTransform 1 0 0]"
    unfolding ne f2 using f2(5) by (simp add: renderer_calls_simps)
  have p: "\<not> magnifier_is_on s''" "timer s'' = None"
    "pending s'' =
       (case timer s of
          None \<Rightarrow> removeAll t (pending s)
        | Some u \<Rightarrow> removeAll u (removeAll t (pending s)))"
    using g f2 by (simp_all split: option.splits)
  show ?thesis
    using a n st rc z1 p by blast
qed

theorem deactivation_leaves_tick_armed_witness:
  "magnifier_is_on (active_state (0, 0)) \<and> ZOOM_MIN \<le> zoom (active_state (0, 0)) \<and>
   0 \<in> set (pending (active_state (0, 0))) \<and>
   pending (script_toggleMagnifier (active_state (0, 0))) = [0] \<and>
   (\<exists>s''. step (TimerFires 0 hd_env) (script_toggleMagnifier (active_state (0, 0))) = Inr s'' \<and>
      renderer_calls (new_effects (script_toggleMagnifier (active_state (0, 0))) s'') =
        [MagSetFullscreenTransform 1 0 0] \<and>
      timer s'' = None \<and> pending s'' = [])"
proof -
  note a = active_state_eq [of "(0, 0)"]
  have h1: "magnifier_is_on (active_state (0, 0))" by (simp add: a)
  have h2: "ZOOM_MIN \<le> zoom (active_state (0, 0))" by (simp add: a ZOOM_MIN_def)
  have h3: "0 \<in> set (pending (active_state (0, 0)))" by (simp add: a)
  have i: "last_nvda_pos (active_state (0, 0)) = nvda_pos hd_env \<and>
           last_mouse_pos (active_state (0, 0)) = cursor (active_state (0, 0))"
    by (simp add: a hd_env_def)
  have p: "pending (active_state (0, 0)) = [0]" "timer (active_state (0, 0)) = Some 0"
    by (simp_all add: a)
  from deactivation_leaves_tick_armed [OF h1 h2 h3, of hd_env]
  have "pending (script_toggleMagnifier (active_state (0, 0))) = [0] \<and>
        (\<exists>s''. step (TimerFires 0 hd_env) (script_toggleMagnifier (active_state (0, 0))) =
                 Inr s'' \<and>
           renderer_calls (new_effects (script_toggleMagnifier (active_state (0, 0))) s'') =
             [MagSetFullscreenTransform 1 0 0] \<and>
           timer s'' = None \<and> pending s'' = [])"
    using i p by auto
  with h1 h2 h3 show ?thesis by blast
qed

text \<open>
  C3 as stated fails. A session is started with the pointer at \<open>(7, 7)\<close> and stopped before
  its first tick: the timer armed at the start is still armed after the deactivation. It
  fires with the accessibility position at \<open>(960, 540)\<close>: after the deactivation's own reset
  the log shows a pointer warp, a transform at zoom 2 and a second reset.
\<close>

theorem deactivation_counterexample:
  "magnifier_is_on (active_state (7, 7)) \<and>
   pending (active_state (7, 7)) = [0] \<and>
   pending (script_toggleMagnifier (active_state (7, 7))) = [0] \<and>
   (case run [ToggleMagnifier, TimerFires 0 focus_env] (active_state (7, 7)) of
      Inl err \<Rightarrow> False
    | Inr s'' \<Rightarrow>
        new_effects (active_state (7, 7)) s'' =
          [MagSetFullscreenTransform 1 0 0, Message MsgStopped, SetCursorPos (960, 540),
           MagSetFullscreenTransform 2 480 270, MagSetFullscreenTransform 1 0 0] \<and>
        reset_calls (new_effects (active_state (7, 7)) s'') =
          [MagSetFullscreenTransform 1 0 0, MagSetFullscreenTransform 1 0 0] \<and>
        apply_calls (new_effects (active_state (7, 7)) s'') =
          [MagSetFullscreenTransform 2 480 270])"
  by (simp add: active_state_eq script_toggleMagnifier_def ui_message_def resetMagnifier_def
      chooseFocus_def focus_env_def focusOnNvda_def centerMagnifier_def getMagnifierWindow_def
      py_int_def Let_def continueMagnifier_def timer_Stop_def new_effects_def
      reset_calls_def apply_calls_def renderer_calls_def)

end
